theory Spec2Isabelle
  imports Complex_Main
begin

section \<open>Column names as ASCII strings\<close>

text \<open>
  Column names are Python \<open>str\<close> values. They are modelled as \<open>string\<close>, restricted to
  ASCII: \<open>str.lower\<close> and the class \<open>\w\<close> of the \<open>re\<close> module are written out for ASCII
  characters only, and every other byte is left unchanged by \<open>lower\<close> and is not a word
  character. Python's \<open>\w\<close> and \<open>re.I\<close> also know the letters beyond ASCII, so the matcher
  below is that of the source on ASCII names only; what is proved of the matcher is stated for
  such names.
\<close>

text \<open>\<open>s.isascii()\<close>: every character of \<open>s\<close> is below 128.\<close>

definition isascii :: "string \<Rightarrow> bool" where
  "isascii s = list_all (\<lambda>c. (of_char c :: nat) < 128) s"

definition ascii_upper :: string where
  "ascii_upper = ''ABCDEFGHIJKLMNOPQRSTUVWXYZ''"

definition ascii_lower :: string where
  "ascii_lower = ''abcdefghijklmnopqrstuvwxyz''"

definition ascii_digits :: string where
  "ascii_digits = ''0123456789''"

definition lower_char :: "char \<Rightarrow> char" where
  "lower_char c = (case map_of (zip ascii_upper ascii_lower) c of Some l \<Rightarrow> l | None \<Rightarrow> c)"

text \<open>\<open>c.lower()\<close>\<close>

definition lower :: "string \<Rightarrow> string" where
  "lower s = map lower_char s"

text \<open>\<open>sub in s\<close> on strings: \<open>sub\<close> occurs in \<open>s\<close> as a contiguous substring.\<close>

fun py_in :: "string \<Rightarrow> string \<Rightarrow> bool" where
  "py_in sub [] = (sub = [])"
| "py_in sub (c # cs) = (take (length sub) (c # cs) = sub \<or> py_in sub cs)"

text \<open>The class \<open>\w\<close>: letters, digits and the underscore.\<close>

definition is_word_char :: "char \<Rightarrow> bool" where
  "is_word_char c = (c \<in> set (ascii_lower @ ascii_upper @ ascii_digits @ ''_''))"

text \<open>The alphanumeric characters, as the glossary of the specification words a word's bounds.\<close>

definition is_alnum_char :: "char \<Rightarrow> bool" where
  "is_alnum_char c = (c \<in> set (ascii_lower @ ascii_upper @ ascii_digits))"

section \<open>The regular expressions of the classifier\<close>

text \<open>
  The fragment of Python's \<open>re\<close> syntax that the source uses: literals, a character set
  \<open>[...]\<close>, the assertion \<open>\b\<close>, concatenation, alternation \<open>|\<close> and the optional
  \<open>?\<close>. Every call in the source passes \<open>flags=re.I\<close>, so characters are compared after
  \<open>lower_char\<close>.
\<close>

datatype regex =
    Eps
  | Lit char
  | CharSet "char list"
  | WordB
  | Cat regex regex
  | Alt regex regex
  | Opt regex

text \<open>
  \<open>\b\<close> at position \<open>i\<close> of \<open>s\<close>: exactly one of the characters before and after the
  position is a word character, the string's edges counting as non-word.
\<close>

definition word_boundary :: "string \<Rightarrow> nat \<Rightarrow> bool" where
  "word_boundary s i =
     ((0 < i \<and> is_word_char (s ! (i - 1))) \<noteq> (i < length s \<and> is_word_char (s ! i)))"

text \<open>
  \<open>rmatch r s i\<close> lists the positions at which a match of \<open>r\<close> that starts at position
  \<open>i\<close> of \<open>s\<close> can end, in the order in which the backtracking matcher tries them.
\<close>

fun rmatch :: "regex \<Rightarrow> string \<Rightarrow> nat \<Rightarrow> nat list" where
  "rmatch Eps s i = [i]"
| "rmatch (Lit c) s i =
     (if i < length s \<and> lower_char (s ! i) = lower_char c then [Suc i] else [])"
| "rmatch (CharSet cs) s i =
     (if i < length s \<and> lower_char (s ! i) \<in> set (map lower_char cs) then [Suc i] else [])"
| "rmatch WordB s i = (if word_boundary s i then [i] else [])"
| "rmatch (Cat a b) s i = concat (map (rmatch b s) (rmatch a s i))"
| "rmatch (Alt a b) s i = rmatch a s i @ rmatch b s i"
| "rmatch (Opt a) s i = rmatch a s i @ [i]"

text \<open>\<open>re.search(r, s, flags=re.I)\<close> read as a truth value: some start position has a match.\<close>

definition re_search :: "regex \<Rightarrow> string \<Rightarrow> bool" where
  "re_search r s = list_ex (\<lambda>i. rmatch r s i \<noteq> []) [0..<Suc (length s)]"

text \<open>A run of literal characters.\<close>

fun lits :: "string \<Rightarrow> regex" where
  "lits [] = Eps"
| "lits (c # cs) = Cat (Lit c) (lits cs)"

text \<open>\<open>re.escape(name)\<close>: the pattern that matches \<open>name\<close> literally.\<close>

definition re_escape :: "string \<Rightarrow> regex" where
  "re_escape name = lits name"

text \<open>\<open>r|q1|...|qn\<close>\<close>

fun alts :: "regex \<Rightarrow> regex list \<Rightarrow> regex" where
  "alts r [] = r"
| "alts r (q # qs) = Alt r (alts q qs)"

definition EEG_NAMES :: "string list" where
  "EEG_NAMES =
     [''Fz'', ''Cz'', ''P3'', ''C3'', ''F3'', ''F4'', ''C4'', ''P4'', ''Fp1'', ''Fp2'',
      ''T3'', ''T4'', ''T5'', ''T6'', ''O1'', ''O2'', ''F7'', ''F8'', ''A1'', ''A2'', ''Pz'']"

text \<open>\<open>r'\b' + re.escape(name) + r'\b'\<close>\<close>

definition eeg_pattern :: "string \<Rightarrow> regex" where
  "eeg_pattern name = Cat WordB (Cat (re_escape name) WordB)"

text \<open>\<open>r'\b(x1|x2|leog|reog)\b'\<close>\<close>

definition ecg_pattern :: regex where
  "ecg_pattern =
     Cat WordB (Cat (alts (lits ''x1'') [lits ''x2'', lits ''leog'', lits ''reog'']) WordB)"

text \<open>\<open>r'\bcm\b|common[_ ]?mode'\<close>\<close>

definition cm_pattern :: regex where
  "cm_pattern =
     Alt (Cat WordB (Cat (lits ''cm'') WordB))
         (Cat (lits ''common'') (Cat (Opt (CharSet ''_ '')) (lits ''mode'')))"

text \<open>\<open>r'\b(x3|trigger|time_?offset|adc_?status|adc_?sequence|event|comments)\b'\<close>\<close>

definition ignore_pattern :: regex where
  "ignore_pattern =
     Cat WordB (Cat
       (alts (lits ''x3'')
          [lits ''trigger'',
           Cat (lits ''time'') (Cat (Opt (Lit CHR ''_'')) (lits ''offset'')),
           Cat (lits ''adc'') (Cat (Opt (Lit CHR ''_'')) (lits ''status'')),
           Cat (lits ''adc'') (Cat (Opt (Lit CHR ''_'')) (lits ''sequence'')),
           lits ''event'',
           lits ''comments''])
       WordB)"

section \<open>The column finders\<close>

text \<open>
  Each finder reads only \<open>df.columns\<close>, so it takes the list of column names, in table
  order. An uncaught Python exception is a value of \<open>py_error\<close>.
\<close>

datatype py_error = IndexError | KeyError string | SystemExit string

definition find_time_col :: "string list \<Rightarrow> py_error + string" where
  "find_time_col cols =
     (case List.find (\<lambda>c. py_in ''time'' (lower c)) cols of
        Some c \<Rightarrow> Inr c
      | None \<Rightarrow> (case cols of [] \<Rightarrow> Inl IndexError | c # _ \<Rightarrow> Inr c))"

text \<open>\<open>list(dict.fromkeys(found))\<close>: the first occurrence of every element, in order.\<close>

fun fromkeys :: "'a list \<Rightarrow> 'a list \<Rightarrow> 'a list" where
  "fromkeys seen [] = []"
| "fromkeys seen (x # xs) =
     (if x \<in> set seen then fromkeys seen xs else x # fromkeys (x # seen) xs)"

definition find_eeg_cols :: "string list \<Rightarrow> string list" where
  "find_eeg_cols cols =
     fromkeys [] (concat (map (\<lambda>name. filter (\<lambda>c. re_search (eeg_pattern name) c) cols)
                              EEG_NAMES))"

definition find_ecg_cols :: "string list \<Rightarrow> string list" where
  "find_ecg_cols cols = filter (\<lambda>c. re_search ecg_pattern c) cols"

definition find_cm_cols :: "string list \<Rightarrow> string list" where
  "find_cm_cols cols = filter (\<lambda>c. re_search cm_pattern c) cols"

definition find_ignore_cols :: "string list \<Rightarrow> string list" where
  "find_ignore_cols cols = filter (\<lambda>c. re_search ignore_pattern c) cols"

section \<open>The data frame\<close>

text \<open>
  A cell holds a number, the missing-value marker or text. Numbers are reals: the rounding of
  64-bit floats is not part of the model. A column carries its name, whether its dtype is a
  number dtype, and its cells; a frame carries the row labels and the columns in table order.
\<close>

datatype cell = Num real | NaN | Str string

record column =
  col_name :: string
  col_numeric :: bool
  col_cells :: "cell list"

record frame =
  df_index :: "nat list"
  df_columns :: "column list"

text \<open>\<open>df.columns\<close>\<close>

definition columns :: "frame \<Rightarrow> string list" where
  "columns df = map col_name (df_columns df)"

text \<open>\<open>len(df)\<close>\<close>

definition nrows :: "frame \<Rightarrow> nat" where
  "nrows df = length (df_index df)"

text \<open>
  What \<open>read_csv\<close> returns: at least one column, column names pairwise different (repeated
  header fields are renamed), and every column as long as the index.
\<close>

definition wf_frame :: "frame \<Rightarrow> bool" where
  "wf_frame df =
     (df_columns df \<noteq> [] \<and> distinct (columns df) \<and>
      list_all (\<lambda>c. length (col_cells c) = nrows df) (df_columns df))"

text \<open>\<open>df[c]\<close>\<close>

definition getitem :: "frame \<Rightarrow> string \<Rightarrow> py_error + cell list" where
  "getitem df c =
     (case List.find (\<lambda>col. col_name col = c) (df_columns df) of
        None \<Rightarrow> Inl (KeyError c)
      | Some col \<Rightarrow> Inr (col_cells col))"

text \<open>\<open>df.select_dtypes(include=[np.number]).columns\<close>\<close>

definition select_dtypes_number :: "frame \<Rightarrow> string list" where
  "select_dtypes_number df = map col_name (filter col_numeric (df_columns df))"

text \<open>
  The slice \<open>[::d]\<close> of a list, for a step \<open>d \<ge> 1\<close>: keep the head, skip the next
  \<open>d - 1\<close> elements, go on.
\<close>

fun slice_step :: "nat \<Rightarrow> 'a list \<Rightarrow> 'a list" where
  "slice_step d [] = []"
| "slice_step d (x # xs) = x # slice_step d (drop (d - 1) xs)"

text \<open>\<open>df.iloc[::d]\<close>: the slice taken of the row labels and of every column.\<close>

definition iloc_step :: "nat \<Rightarrow> frame \<Rightarrow> frame" where
  "iloc_step d df =
     df\<lparr>df_index := slice_step d (df_index df),
        df_columns := map (\<lambda>c. c\<lparr>col_cells := slice_step d (col_cells c)\<rparr>) (df_columns df)\<rparr>"

text \<open>\<open>df.reset_index(drop=True)\<close>: the row labels become \<open>0, 1, ..., len(df) - 1\<close>.\<close>

definition reset_index_drop :: "frame \<Rightarrow> frame" where
  "reset_index_drop df = df\<lparr>df_index := [0..<length (df_index df)]\<rparr>"

text \<open>
  \<open>pd.to_numeric(col, errors='coerce')\<close>: a float per cell, \<open>None\<close> for the missing-value
  marker. How pandas reads a number out of text is not part of the repository and is the
  parameter \<open>parse\<close>.
\<close>

definition to_numeric_coerce :: "(string \<Rightarrow> real option) \<Rightarrow> cell list \<Rightarrow> real option list" where
  "to_numeric_coerce parse cells =
     map (\<lambda>x. case x of Num v \<Rightarrow> Some v | NaN \<Rightarrow> None | Str s \<Rightarrow> parse s) cells"

text \<open>\<open>y / k\<close> on a float series: the missing-value marker stays.\<close>

definition truediv :: "real option list \<Rightarrow> real \<Rightarrow> real option list" where
  "truediv y k = map (map_option (\<lambda>v. v / k)) y"

definition float_cells :: "real option list \<Rightarrow> cell list" where
  "float_cells y = map (\<lambda>v. case v of Some r \<Rightarrow> Num r | None \<Rightarrow> NaN) y"

section \<open>The program\<close>

record args =
  arg_input :: string
  arg_output :: string
  arg_downsample :: int

text \<open>
  A trace of the figure: \<open>go.Scatter(x, y, name, mode='lines', line)\<close> and the axis it was
  added to.
\<close>

record trace =
  tr_x :: "cell list"
  tr_y :: "cell list"
  tr_name :: string
  tr_dash :: "string option"
  tr_secondary_y :: bool

record figure =
  fig_data :: "trace list"
  fig_buttons :: "(string \<times> bool list) list"

record classification =
  time_col :: string
  eeg_cols :: "string list"
  ecg_cols :: "string list"
  cm_cols :: "string list"

text \<open>Lines 67 to 76 of \<open>main\<close>: the four groups, with the fallback for EEG.\<close>

definition classify :: "frame \<Rightarrow> py_error + classification" where
  "classify df =
     (case find_time_col (columns df) of
        Inl e \<Rightarrow> Inl e
      | Inr t \<Rightarrow>
          let ignored = find_ignore_cols (columns df);
              eeg = filter (\<lambda>c. c \<notin> set ignored) (find_eeg_cols (columns df));
              ecg = filter (\<lambda>c. c \<notin> set ignored) (find_ecg_cols (columns df));
              cm = filter (\<lambda>c. c \<notin> set ignored) (find_cm_cols (columns df));
              eeg' = (if eeg = []
                      then filter (\<lambda>c. c \<notin> set ([t] @ ecg @ cm @ ignored))
                                  (select_dtypes_number df)
                      else eeg)
          in Inr \<lparr>time_col = t, eeg_cols = eeg', ecg_cols = ecg, cm_cols = cm\<rparr>)"

text \<open>Lines 84 to 86: the frame is replaced only when the factor is greater than 1.\<close>

definition downsample :: "int \<Rightarrow> frame \<Rightarrow> frame" where
  "downsample d df = (if d > 1 then reset_index_drop (iloc_step (nat d) df) else df)"

text \<open>
  The three loops that add traces. The state is \<open>fig.data\<close> and the index list of the
  group; \<open>len(fig.data) - 1\<close> is read after the trace was added.
\<close>

fun add_eeg :: "frame \<Rightarrow> string \<Rightarrow> string list \<Rightarrow> trace list \<times> nat list
                \<Rightarrow> py_error + trace list \<times> nat list" where
  "add_eeg df t [] st = Inr st"
| "add_eeg df t (c # cs) (data, idx) =
     (case getitem df t of
        Inl e \<Rightarrow> Inl e
      | Inr x \<Rightarrow>
          (case getitem df c of
             Inl e \<Rightarrow> Inl e
           | Inr y \<Rightarrow>
               let data' = data @ [\<lparr>tr_x = x, tr_y = y, tr_name = c, tr_dash = None,
                                     tr_secondary_y = False\<rparr>]
               in add_eeg df t cs (data', idx @ [length data' - 1])))"

fun add_ecg :: "(string \<Rightarrow> real option) \<Rightarrow> frame \<Rightarrow> string \<Rightarrow> string list
                \<Rightarrow> trace list \<times> nat list \<Rightarrow> py_error + trace list \<times> nat list" where
  "add_ecg parse df t [] st = Inr st"
| "add_ecg parse df t (c # cs) (data, idx) =
     (case getitem df c of
        Inl e \<Rightarrow> Inl e
      | Inr col \<Rightarrow>
          let y = to_numeric_coerce parse col in
          (case getitem df t of
             Inl e \<Rightarrow> Inl e
           | Inr x \<Rightarrow>
               let data' = data @ [\<lparr>tr_x = x, tr_y = float_cells (truediv y 1000),
                                     tr_name = c @ '' (mV)'', tr_dash = None,
                                     tr_secondary_y = True\<rparr>]
               in add_ecg parse df t cs (data', idx @ [length data' - 1])))"

fun add_cm :: "(string \<Rightarrow> real option) \<Rightarrow> frame \<Rightarrow> string \<Rightarrow> string list
               \<Rightarrow> trace list \<times> nat list \<Rightarrow> py_error + trace list \<times> nat list" where
  "add_cm parse df t [] st = Inr st"
| "add_cm parse df t (c # cs) (data, idx) =
     (case getitem df c of
        Inl e \<Rightarrow> Inl e
      | Inr col \<Rightarrow>
          let y = to_numeric_coerce parse col in
          (case getitem df t of
             Inl e \<Rightarrow> Inl e
           | Inr x \<Rightarrow>
               let data' = data @ [\<lparr>tr_x = x, tr_y = float_cells (truediv y 1000),
                                     tr_name = c @ '' (mV, CM)'', tr_dash = Some ''dot'',
                                     tr_secondary_y = True\<rparr>]
               in add_cm parse df t cs (data', idx @ [length data' - 1])))"

text \<open>
  \<open>main\<close>, from the frame that \<open>read_csv_skip_comments\<close> returned. The result is the
  uncaught exception, or the path and the figure given to \<open>write_html\<close>; writing the file is
  taken to succeed. What \<open>main\<close> prints and the titles of the layout are left out.
\<close>

definition main :: "(string \<Rightarrow> real option) \<Rightarrow> args \<Rightarrow> frame \<Rightarrow> py_error + string \<times> figure" where
  "main parse a df0 =
     (case classify df0 of
        Inl e \<Rightarrow> Inl e
      | Inr k \<Rightarrow>
          let df = downsample (arg_downsample a) df0 in
          (case add_eeg df (time_col k) (eeg_cols k) ([], []) of
             Inl e \<Rightarrow> Inl e
           | Inr (data1, eeg_idx) \<Rightarrow>
               (case add_ecg parse df (time_col k) (ecg_cols k) (data1, []) of
                  Inl e \<Rightarrow> Inl e
                | Inr (data2, ecg_idx) \<Rightarrow>
                    (case add_cm parse df (time_col k) (cm_cols k) (data2, []) of
                       Inl e \<Rightarrow> Inl e
                     | Inr (data3, cm_idx) \<Rightarrow>
                         if data3 = [] then Inl (SystemExit ''No plottable channels found.'')
                         else
                           let total = length data3;
                               all_vis = replicate total True;
                               eeg_vis = map (\<lambda>i. i \<in> set eeg_idx) [0..<total];
                               ecgcm_vis = map (\<lambda>i. i \<in> set (ecg_idx @ cm_idx)) [0..<total];
                               none_vis = replicate total False
                           in Inr (arg_output a,
                                   \<lparr>fig_data = data3,
                                    fig_buttons = [(''All'', all_vis), (''EEG only'', eeg_vis),
                                                   (''ECG+CM only'', ecgcm_vis),
                                                   (''Hide all'', none_vis)]\<rparr>)))))"

text \<open>
  The exit status of the process: 0 when \<open>main\<close> returns, 1 when an exception reaches the
  top level (\<open>SystemExit\<close> with a message prints the message and exits with 1).
\<close>

definition exit_status :: "py_error + 'a \<Rightarrow> int" where
  "exit_status r = (case r of Inl _ \<Rightarrow> 1 | Inr _ \<Rightarrow> 0)"

text \<open>The file written by the run, if any.\<close>

definition output_written :: "py_error + string \<times> figure \<Rightarrow> (string \<times> figure) option" where
  "output_written r = (case r of Inl _ \<Rightarrow> None | Inr out \<Rightarrow> Some out)"

section \<open>Wordings of the specification\<close>

text \<open>
  A name contains the substring "time" in any case: some contiguous part of it is
  \<open>time\<close> after lowering.
\<close>

definition contains_time :: "string \<Rightarrow> bool" where
  "contains_time c = (\<exists>u w v. c = u @ w @ v \<and> lower w = ''time'')"

text \<open>
  The token \<open>tok\<close> stands in \<open>s\<close> at position \<open>i\<close>, letters compared without case.
\<close>

definition ci_at :: "string \<Rightarrow> string \<Rightarrow> nat \<Rightarrow> bool" where
  "ci_at tok s i =
     (i + length tok \<le> length s \<and> lower (take (length tok) (drop i s)) = lower tok)"

text \<open>
  A whole-word occurrence of \<open>tok\<close> in \<open>s\<close>: the token stands somewhere in \<open>s\<close> with, on each
  side, the edge of the string or a character outside the class \<open>wordc\<close>. The glossary of the
  specification takes the alphanumeric characters for \<open>wordc\<close>.
\<close>

definition whole_word :: "(char \<Rightarrow> bool) \<Rightarrow> string \<Rightarrow> string \<Rightarrow> bool" where
  "whole_word wordc tok s =
     list_ex (\<lambda>i. ci_at tok s i \<and>
                   (i = 0 \<or> \<not> wordc (s ! (i - 1))) \<and>
                   (i + length tok = length s \<or> \<not> wordc (s ! (i + length tok))))
             [0..<Suc (length s)]"

text \<open>The token occurs in \<open>s\<close> anywhere, letters compared without case.\<close>

definition contains_ci :: "string \<Rightarrow> string \<Rightarrow> bool" where
  "contains_ci tok s = list_ex (\<lambda>i. ci_at tok s i) [0..<Suc (length s)]"

text \<open>The end positions of the tokens of \<open>T\<close> that stand in \<open>s\<close> at position \<open>i\<close>.\<close>

definition tok_ends :: "string list \<Rightarrow> string \<Rightarrow> nat \<Rightarrow> nat set" where
  "tok_ends T s i = {i + length tok | tok. tok \<in> set T \<and> ci_at tok s i}"

text \<open>The alternatives of the three fixed patterns, written out as tokens.\<close>

definition ecg_keywords :: "string list" where
  "ecg_keywords = [''x1'', ''x2'', ''leog'', ''reog'']"

definition ignore_keywords :: "string list" where
  "ignore_keywords =
     [''x3'', ''trigger'', ''time_offset'', ''timeoffset'', ''adc_status'', ''adcstatus'',
      ''adc_sequence'', ''adcsequence'', ''event'', ''comments'']"

definition cm_phrases :: "string list" where
  "cm_phrases = [''common_mode'', ''common mode'', ''commonmode'']"

text \<open>
  The role groups are pairwise disjoint, and the Time column is in none of the other groups.
\<close>

definition roles_disjoint :: "frame \<Rightarrow> classification \<Rightarrow> bool" where
  "roles_disjoint df k =
     (let ignored = set (find_ignore_cols (columns df));
          eeg = set (eeg_cols k); ecg = set (ecg_cols k); cm = set (cm_cols k)
      in time_col k \<notin> eeg \<union> ecg \<union> cm \<union> ignored \<and>
         eeg \<inter> ecg = {} \<and> eeg \<inter> cm = {} \<and> ecg \<inter> cm = {} \<and>
         (eeg \<union> ecg \<union> cm) \<inter> ignored = {})"

text \<open>The cells of the column named \<open>c\<close>; no cells when there is no such column.\<close>

definition cells :: "frame \<Rightarrow> string \<Rightarrow> cell list" where
  "cells df c = (case getitem df c of Inr y \<Rightarrow> y | Inl _ \<Rightarrow> [])"

text \<open>
  A cell coerced to a number and divided by 1000: text that does not parse becomes the
  missing-value marker, which stays as it is.
\<close>

definition scaled :: "(string \<Rightarrow> real option) \<Rightarrow> cell \<Rightarrow> cell" where
  "scaled parse x =
     (case x of
        Num v \<Rightarrow> Num (v / 1000)
      | NaN \<Rightarrow> NaN
      | Str s \<Rightarrow> (case parse s of Some v \<Rightarrow> Num (v / 1000) | None \<Rightarrow> NaN))"

text \<open>The series of an EEG, an ECG and a CommonMode column over the Time column \<open>t\<close>.\<close>

definition eeg_trace :: "frame \<Rightarrow> string \<Rightarrow> string \<Rightarrow> trace" where
  "eeg_trace df t c =
     \<lparr>tr_x = cells df t, tr_y = cells df c, tr_name = c, tr_dash = None,
      tr_secondary_y = False\<rparr>"

definition ecg_trace :: "(string \<Rightarrow> real option) \<Rightarrow> frame \<Rightarrow> string \<Rightarrow> string \<Rightarrow> trace" where
  "ecg_trace parse df t c =
     \<lparr>tr_x = cells df t, tr_y = map (scaled parse) (cells df c), tr_name = c @ '' (mV)'',
      tr_dash = None, tr_secondary_y = True\<rparr>"

definition cm_trace :: "(string \<Rightarrow> real option) \<Rightarrow> frame \<Rightarrow> string \<Rightarrow> string \<Rightarrow> trace" where
  "cm_trace parse df t c =
     \<lparr>tr_x = cells df t, tr_y = map (scaled parse) (cells df c), tr_name = c @ '' (mV, CM)'',
      tr_dash = Some ''dot'', tr_secondary_y = True\<rparr>"

definition all_traces :: "(string \<Rightarrow> real option) \<Rightarrow> frame \<Rightarrow> classification \<Rightarrow> trace list" where
  "all_traces parse df k =
     map (eeg_trace df (time_col k)) (eeg_cols k) @
     map (ecg_trace parse df (time_col k)) (ecg_cols k) @
     map (cm_trace parse df (time_col k)) (cm_cols k)"

section \<open>Example tables\<close>

definition demo_frame :: frame where
  "demo_frame =
     \<lparr>df_index = [0, 1, 2, 3, 4],
      df_columns = [\<lparr>col_name = ''Time'', col_numeric = True,
                     col_cells = [Num 0, Num 1, Num 2, Num 3, Num 4]\<rparr>,
                    \<lparr>col_name = ''Fz'', col_numeric = True,
                     col_cells = [Num 10, Num 11, NaN, Num 13, Num 14]\<rparr>]\<rparr>"

definition overlap_frame :: frame where
  "overlap_frame =
     \<lparr>df_index = [0, 1],
      df_columns = [\<lparr>col_name = ''time_offset'', col_numeric = True, col_cells = [Num 0, Num 1]\<rparr>,
                    \<lparr>col_name = ''Fp1-LEOG'', col_numeric = True, col_cells = [Num 5, Num 6]\<rparr>]\<rparr>"

definition fallback_frame :: frame where
  "fallback_frame =
     \<lparr>df_index = [0, 1],
      df_columns = [\<lparr>col_name = ''t'', col_numeric = True, col_cells = [Num 0, Num 1]\<rparr>,
                    \<lparr>col_name = ''ch1'', col_numeric = True, col_cells = [Num 5, Num 6]\<rparr>,
                    \<lparr>col_name = ''Fz event'', col_numeric = True, col_cells = [Num 5, Num 6]\<rparr>,
                    \<lparr>col_name = ''note'', col_numeric = False, col_cells = [Str ''a'', Str ''b'']\<rparr>,
                    \<lparr>col_name = ''X2'', col_numeric = False, col_cells = [Str ''7'', Str ''x'']\<rparr>]\<rparr>"

text \<open>A table with an EEG label next to the keyword \<open>event\<close> followed by an underscore.\<close>

definition event_id_frame :: frame where
  "event_id_frame =
     \<lparr>df_index = [0, 1],
      df_columns = [\<lparr>col_name = ''Time'', col_numeric = True, col_cells = [Num 0, Num 1]\<rparr>,
                    \<lparr>col_name = ''Fz event_id'', col_numeric = True,
                     col_cells = [Num 5, Num 6]\<rparr>]\<rparr>"

text \<open>A table whose columns are the Time column, an Ignored column and a text column.\<close>

definition no_channel_frame :: frame where
  "no_channel_frame =
     \<lparr>df_index = [0, 1],
      df_columns = [\<lparr>col_name = ''t'', col_numeric = True, col_cells = [Num 0, Num 1]\<rparr>,
                    \<lparr>col_name = ''trigger'', col_numeric = True, col_cells = [Num 0, Num 1]\<rparr>,
                    \<lparr>col_name = ''note'', col_numeric = False,
                     col_cells = [Str ''a'', Str ''b'']\<rparr>]\<rparr>"

text \<open>The table with header \<open>Time,Fz,Cz,X1,CM1\<close> and numeric cells.\<close>

definition scenario_frame :: "real list \<Rightarrow> real list \<Rightarrow> real list \<Rightarrow> real list \<Rightarrow> real list \<Rightarrow> frame" where
  "scenario_frame t fz cz x1 cm1 =
     \<lparr>df_index = [0..<length t],
      df_columns = [\<lparr>col_name = ''Time'', col_numeric = True, col_cells = map Num t\<rparr>,
                    \<lparr>col_name = ''Fz'', col_numeric = True, col_cells = map Num fz\<rparr>,
                    \<lparr>col_name = ''Cz'', col_numeric = True, col_cells = map Num cz\<rparr>,
                    \<lparr>col_name = ''X1'', col_numeric = True, col_cells = map Num x1\<rparr>,
                    \<lparr>col_name = ''CM1'', col_numeric = True, col_cells = map Num cm1\<rparr>]\<rparr>"

definition demo_args :: args where
  "demo_args = \<lparr>arg_input = ''in.csv'', arg_output = ''eeg_ecg_plot.html'', arg_downsample = 1\<rparr>"

definition demo_parse :: "string \<Rightarrow> real option" where
  "demo_parse s = (if s = ''7'' then Some 7 else None)"

section \<open>Time detection\<close>

lemma py_in_iff: "py_in sub s \<longleftrightarrow> (\<exists>u v. s = u @ sub @ v)"
proof (induction s)
  case Nil
  then show ?case by auto
next
  case (Cons c cs)
  have "take (length sub) (c # cs) = sub \<longleftrightarrow> (\<exists>v. c # cs = sub @ v)"
    by (metis append_eq_conv_conj)
  moreover have "(\<exists>u v. c # cs = u @ sub @ v) \<longleftrightarrow>
      (\<exists>v. c # cs = sub @ v) \<or> (\<exists>u v. cs = u @ sub @ v)"
  proof
    assume "\<exists>u v. c # cs = u @ sub @ v"
    then obtain u v where uv: "c # cs = u @ sub @ v" by blast
    show "(\<exists>v. c # cs = sub @ v) \<or> (\<exists>u v. cs = u @ sub @ v)"
    proof (cases u)
      case Nil
      with uv show ?thesis by auto
    next
      case (Cons a u')
      with uv have "cs = u' @ sub @ v" by simp
      then show ?thesis by blast
    qed
  next
    assume "(\<exists>v. c # cs = sub @ v) \<or> (\<exists>u v. cs = u @ sub @ v)"
    then show "\<exists>u v. c # cs = u @ sub @ v"
    proof
      assume "\<exists>v. c # cs = sub @ v"
      then show ?thesis by (metis append_Nil)
    next
      assume "\<exists>u v. cs = u @ sub @ v"
      then obtain u v where "cs = u @ sub @ v" by blast
      then have "c # cs = (c # u) @ sub @ v" by simp
      then show ?thesis by blast
    qed
  qed
  ultimately show ?case using Cons.IH by simp
qed

lemma map_eq_app_split:
  "map f c = a @ b \<Longrightarrow> \<exists>u r. c = u @ r \<and> map f u = a \<and> map f r = b"
  by (auto simp add: map_eq_append_conv)

lemma map_infix_iff:
  "(\<exists>u w v. c = u @ w @ v \<and> map f w = t) \<longleftrightarrow> (\<exists>u' v'. map f c = u' @ t @ v')"
proof
  assume "\<exists>u w v. c = u @ w @ v \<and> map f w = t"
  then obtain u w v where "c = u @ w @ v" "map f w = t" by blast
  then have "map f c = map f u @ t @ map f v" by simp
  then show "\<exists>u' v'. map f c = u' @ t @ v'" by blast
next
  assume "\<exists>u' v'. map f c = u' @ t @ v'"
  then obtain u' v' where h: "map f c = u' @ t @ v'" by blast
  from map_eq_app_split[OF h] obtain u r where c1: "c = u @ r" and r: "map f r = t @ v'"
    by blast
  from map_eq_app_split[OF r] obtain w v where "r = w @ v" "map f w = t"
    by blast
  with c1 show "\<exists>u w v. c = u @ w @ v \<and> map f w = t" by blast
qed

lemma contains_time_iff: "contains_time c \<longleftrightarrow> py_in ''time'' (lower c)"
  unfolding contains_time_def py_in_iff lower_def by (rule map_infix_iff)

lemma find_first: "\<forall>c\<in>set pre. \<not> P c \<Longrightarrow> P t \<Longrightarrow> List.find P (pre @ t # post) = Some t"
  by (induction pre) auto

lemma find_none: "\<forall>c\<in>set cols. \<not> P c \<Longrightarrow> List.find P cols = None"
  by (induction cols) auto

lemma find_time_col_in_columns: "find_time_col cols = Inr t \<Longrightarrow> t \<in> set cols"
  unfolding find_time_col_def
  by (auto split: option.splits list.splits simp: find_Some_iff)

lemma find_time_col_nonempty: "cols \<noteq> [] \<Longrightarrow> \<exists>t. find_time_col cols = Inr t"
  unfolding find_time_col_def by (auto split: option.splits list.splits)

text \<open>
  C5. When some column name contains "time" in any case, the Time column is the first such
  column in table order: whenever the columns are \<open>pre @ t # post\<close> with \<open>t\<close> containing
  "time" and no name of \<open>pre\<close> containing it, \<open>find_time_col\<close> returns \<open>t\<close>. When no
  column name contains "time", the Time column is the first column of the table.
\<close>

theorem find_time_col_first_match:
  "(cols = pre @ t # post \<and> contains_time t \<and> (\<forall>c\<in>set pre. \<not> contains_time c)
      \<longrightarrow> find_time_col cols = Inr t) \<and>
   (cols \<noteq> [] \<and> (\<forall>c\<in>set cols. \<not> contains_time c) \<longrightarrow> find_time_col cols = Inr (hd cols))"
proof (intro conjI impI)
  assume h: "cols = pre @ t # post \<and> contains_time t \<and> (\<forall>c\<in>set pre. \<not> contains_time c)"
  then have "List.find (\<lambda>c. py_in ''time'' (lower c)) (pre @ t # post) = Some t"
    by (intro find_first) (simp_all add: contains_time_iff)
  with h show "find_time_col cols = Inr t" by (simp add: find_time_col_def)
next
  assume h: "cols \<noteq> [] \<and> (\<forall>c\<in>set cols. \<not> contains_time c)"
  then have "List.find (\<lambda>c. py_in ''time'' (lower c)) cols = None"
    by (intro find_none) (simp add: contains_time_iff)
  with h show "find_time_col cols = Inr (hd cols)"
    by (cases cols) (simp_all add: find_time_col_def)
qed

theorem find_time_col_first_match_witness:
  "find_time_col [''t'', ''My TIME'', ''time''] = Inr ''My TIME'' \<and>
   find_time_col [''t'', ''trigger'', ''Fp1''] = Inr ''t''"
proof -
  have low: "lower ''t'' = ''t''" "lower ''My TIME'' = ''my time''"
    "lower ''trigger'' = ''trigger''" "lower ''Fp1'' = ''fp1''"
    by (simp_all add: lower_def lower_char_def ascii_upper_def ascii_lower_def)
  have a: "contains_time ''My TIME''" "\<not> contains_time ''t''"
    "\<not> contains_time ''trigger''" "\<not> contains_time ''Fp1''"
    by (simp_all add: contains_time_iff low)
  have "find_time_col [''t'', ''My TIME'', ''time''] = Inr ''My TIME''"
    using find_time_col_first_match [of "[''t'', ''My TIME'', ''time'']" "[''t'']"
        "''My TIME''" "[''time'']"] a
    by simp
  moreover have "find_time_col [''t'', ''trigger'', ''Fp1''] = Inr ''t''"
    using find_time_col_first_match [of "[''t'', ''trigger'', ''Fp1'']"] a by simp
  ultimately show ?thesis by simp
qed

section \<open>Downsampling\<close>

lemma slice_step_length: "0 < d \<Longrightarrow> length (slice_step d xs) = (length xs + d - 1) div d"
proof (induction d xs rule: slice_step.induct)
  case (1 d)
  then show ?case by simp
next
  case (2 d x xs)
  show ?case
  proof (cases "d - 1 \<le> length xs")
    case True
    have "length (slice_step d (x # xs)) = Suc ((length xs - (d - 1) + d - 1) div d)"
      using 2 by simp
    also have "length xs - (d - 1) + d - 1 = length xs" using True 2(2) by simp
    also have "Suc (length xs div d) = (length (x # xs) + d - 1) div d"
      using 2(2) by simp
    finally show ?thesis .
  next
    case False
    then have "drop (d - 1) xs = []" by simp
    then have "length (slice_step d (x # xs)) = 1" by simp
    moreover have "(length (x # xs) + d - 1) div d = 1"
      using False 2(2) by (simp add: div_eq_dividend_iff)
    ultimately show ?thesis by simp
  qed
qed

lemma slice_step_nth:
  "0 < d \<Longrightarrow> k < length (slice_step d xs) \<Longrightarrow> slice_step d xs ! k = xs ! (k * d)"
proof (induction d xs arbitrary: k rule: slice_step.induct)
  case (1 d)
  then show ?case by simp
next
  case (2 d x xs)
  show ?case
  proof (cases k)
    case 0
    then show ?thesis by simp
  next
    case (Suc j)
    with 2(3) have j: "j < length (slice_step d (drop (d - 1) xs))" by simp
    then have ne: "drop (d - 1) xs \<noteq> []" by auto
    then have le: "d - 1 \<le> length xs" by simp
    have "slice_step d (x # xs) ! k = slice_step d (drop (d - 1) xs) ! j"
      using Suc by simp
    also have "\<dots> = drop (d - 1) xs ! (j * d)" using 2(1)[OF 2(2) j] .
    also have "\<dots> = xs ! (d - 1 + j * d)" using le by simp
    also have "\<dots> = (x # xs) ! (k * d)" using Suc 2(2) by (cases d) (simp_all add: ac_simps)
    finally show ?thesis .
  qed
qed

lemma ceil_div:
  assumes "0 < d"
  shows "int ((n + d - 1) div d) = \<lceil>real n / real d\<rceil>"
proof -
  define q where "q = (n + d - 1) div d"
  have "n + d - 1 < d + q * d"
    unfolding q_def using assms by (rule dividend_less_div_times)
  then have 1: "n \<le> q * d" using assms by simp
  have "q * d \<le> n + d - 1" unfolding q_def by simp
  then have 2: "q * d < n + d" using assms by simp
  have "real n \<le> real (q * d)" using 1 by (rule of_nat_mono)
  then have a: "real n / real d \<le> real q"
    using assms by (simp add: divide_le_eq)
  have "real (q * d) < real (n + d)" using 2 by (simp only: of_nat_less_iff)
  then have b: "real q - 1 < real n / real d"
    using assms by (simp add: less_divide_eq algebra_simps)
  have "\<lceil>real n / real d\<rceil> = int q"
    by (rule ceiling_unique) (use a b in simp_all)
  then show ?thesis unfolding q_def by simp
qed

lemma slice_step_index_in_range:
  assumes "0 < (d::nat)" "k < (n + d - 1) div d"
  shows "k * d < n"
proof -
  have "Suc k \<le> (n + d - 1) div d" using assms(2) by simp
  then have "Suc k * d \<le> n + d - 1" using assms(1) by (simp add: less_eq_div_iff_mult_less_eq)
  then show ?thesis using assms(1) by simp
qed

lemma downsample_columns: "columns (downsample d df) = columns df"
  by (simp add: downsample_def columns_def iloc_step_def reset_index_drop_def comp_def)

lemma downsample_index:
  "1 < d \<Longrightarrow> df_index (downsample d df) = [0..<(nrows df + nat d - 1) div nat d]"
  by (simp add: downsample_def reset_index_drop_def iloc_step_def nrows_def slice_step_length)

lemma downsample_cells:
  "1 < d \<Longrightarrow> j < length (df_columns df) \<Longrightarrow>
   col_cells (df_columns (downsample d df) ! j) = slice_step (nat d) (col_cells (df_columns df ! j))"
  by (simp add: downsample_def reset_index_drop_def iloc_step_def)

text \<open>
  C6. Downsampling with factor 1 leaves the frame as it is. Downsampling a frame of \<open>N\<close>
  rows, all columns of that length, with a factor \<open>d > 1\<close> gives exactly
  \<open>\<lceil>N / d\<rceil>\<close> rows; row \<open>k\<close> of the result is row \<open>k * d\<close> of the original in every
  column, the column names are unchanged, and the row labels of the result are
  \<open>0, 1, ...\<close> without gaps.
\<close>

theorem downsample_rows:
  "downsample 1 df = df \<and>
   (1 < d \<and> list_all (\<lambda>c. length (col_cells c) = nrows df) (df_columns df) \<longrightarrow>
      int (nrows (downsample d df)) = \<lceil>real (nrows df) / real_of_int d\<rceil> \<and>
      df_index (downsample d df) = [0..<nrows (downsample d df)] \<and>
      columns (downsample d df) = columns df \<and>
      (\<forall>j<length (df_columns df).
         length (col_cells (df_columns (downsample d df) ! j)) = nrows (downsample d df) \<and>
         (\<forall>k<nrows (downsample d df).
            k * nat d < nrows df \<and>
            col_cells (df_columns (downsample d df) ! j) ! k
              = col_cells (df_columns df ! j) ! (k * nat d))))"
proof (intro conjI impI)
  show "downsample 1 df = df" by (simp add: downsample_def)
next
  assume h: "1 < d \<and> list_all (\<lambda>c. length (col_cells c) = nrows df) (df_columns df)"
  then have d: "1 < d" and pos: "0 < nat d" by simp_all
  have n: "nrows (downsample d df) = (nrows df + nat d - 1) div nat d"
    using downsample_index[OF d, of df] by (simp add: nrows_def)
  have e: "\<lceil>real (nrows df) / real_of_int d\<rceil> = \<lceil>real (nrows df) / real (nat d)\<rceil>"
    using d by simp
  show "int (nrows (downsample d df)) = \<lceil>real (nrows df) / real_of_int d\<rceil>"
    by (simp only: e n ceil_div[OF pos])
  show "df_index (downsample d df) = [0..<nrows (downsample d df)]"
    using downsample_index[OF d, of df] n by simp
  show "columns (downsample d df) = columns df" by (rule downsample_columns)
  show "\<forall>j<length (df_columns df).
         length (col_cells (df_columns (downsample d df) ! j)) = nrows (downsample d df) \<and>
         (\<forall>k<nrows (downsample d df).
            k * nat d < nrows df \<and>
            col_cells (df_columns (downsample d df) ! j) ! k
              = col_cells (df_columns df ! j) ! (k * nat d))"
  proof (intro allI impI conjI)
    fix j assume j: "j < length (df_columns df)"
    then have len: "length (col_cells (df_columns df ! j)) = nrows df"
      using h by (simp add: list_all_length)
    show l2: "length (col_cells (df_columns (downsample d df) ! j)) = nrows (downsample d df)"
      using downsample_cells[OF d j] len n pos by (simp add: slice_step_length)
    fix k assume k: "k < nrows (downsample d df)"
    show "k * nat d < nrows df"
      using k n slice_step_index_in_range[OF pos, of k "nrows df"] by simp
    have "k < length (slice_step (nat d) (col_cells (df_columns df ! j)))"
      using k l2 downsample_cells[OF d j] by simp
    then show "col_cells (df_columns (downsample d df) ! j) ! k
              = col_cells (df_columns df ! j) ! (k * nat d)"
      using downsample_cells[OF d j] slice_step_nth[OF pos] by simp
  qed
qed

theorem downsample_rows_witness:
  "nrows (downsample 2 demo_frame) = 3 \<and>
   df_index (downsample 2 demo_frame) = [0, 1, 2] \<and>
   col_cells (df_columns (downsample 2 demo_frame) ! 1) ! 2 = Num 14"
proof -
  have wf: "(1::int) < 2 \<and> list_all (\<lambda>c. length (col_cells c) = nrows demo_frame) (df_columns demo_frame)"
    by (simp add: demo_frame_def nrows_def)
  note t = downsample_rows [of demo_frame 2, THEN conjunct2, rule_format, OF wf]
  have c: "\<lceil>real (nrows demo_frame) / real_of_int 2\<rceil> = 3"
    by (simp add: demo_frame_def nrows_def ceiling_eq_iff)
  from t c have n: "nrows (downsample 2 demo_frame) = 3" by simp
  from t n have i: "df_index (downsample 2 demo_frame) = [0, 1, 2]"
    by (simp add: upt_conv_Cons)
  have "(1::nat) < length (df_columns demo_frame)" by (simp add: demo_frame_def)
  moreover have "(2::nat) < nrows (downsample 2 demo_frame)" using n by simp
  ultimately have "col_cells (df_columns (downsample 2 demo_frame) ! 1) ! 2
              = col_cells (df_columns demo_frame ! 1) ! (2 * nat 2)"
    using t by simp
  then have "col_cells (df_columns (downsample 2 demo_frame) ! 1) ! 2 = Num 14"
    by (simp add: demo_frame_def)
  with n i show ?thesis by simp
qed

text \<open>
  C10. For every downsample factor \<open>d \<le> 1\<close>, zero and the negative integers included,
  the downsampling step leaves the frame unchanged and raises nothing: the whole run is the
  run with factor 1. Rows are dropped only when \<open>d > 1\<close>.
\<close>

theorem downsample_nonpositive_noop:
  "d \<le> 1 \<longrightarrow> downsample d df = df \<and>
     main parse (a\<lparr>arg_downsample := d\<rparr>) df = main parse (a\<lparr>arg_downsample := 1\<rparr>) df"
proof
  assume d: "d \<le> 1"
  have e: "downsample d df = df" "downsample 1 df = df"
    using d by (simp_all add: downsample_def)
  have "main parse (a\<lparr>arg_downsample := d\<rparr>) df = main parse (a\<lparr>arg_downsample := 1\<rparr>) df"
    unfolding main_def by (simp add: e split: sum.splits prod.splits)
  with e show "downsample d df = df \<and>
     main parse (a\<lparr>arg_downsample := d\<rparr>) df = main parse (a\<lparr>arg_downsample := 1\<rparr>) df"
    by simp
qed

theorem downsample_nonpositive_noop_witness:
  "downsample 0 demo_frame = demo_frame \<and> downsample (- 3) demo_frame = demo_frame"
  using downsample_nonpositive_noop [of 0 demo_frame] downsample_nonpositive_noop [of "- 3" demo_frame]
  by simp

section \<open>Whole-word matching\<close>

lemma is_word_char_lower: "is_word_char (lower_char c) = is_word_char c"
  unfolding is_word_char_def lower_char_def ascii_upper_def ascii_lower_def ascii_digits_def
  by (auto split: option.splits if_splits)

lemma ci_at_Nil: "ci_at [] s i \<longleftrightarrow> i \<le> length s"
  by (simp add: ci_at_def lower_def)

lemma ci_at_Cons:
  "ci_at (c # cs) s i \<longleftrightarrow>
     i < length s \<and> lower_char (s ! i) = lower_char c \<and> ci_at cs s (Suc i)"
proof (cases "i < length s")
  case True
  then have "drop i s = s ! i # drop (Suc i) s" by (simp add: Cons_nth_drop_Suc)
  then show ?thesis using True by (auto simp: ci_at_def lower_def)
next
  case False
  then show ?thesis by (simp add: ci_at_def)
qed

lemma ci_at_append:
  "ci_at (a @ b) s i \<longleftrightarrow> ci_at a s i \<and> ci_at b s (i + length a)"
proof (induction a arbitrary: i)
  case Nil
  show ?case by (auto simp: ci_at_Nil ci_at_def)
next
  case (Cons c a)
  show ?case by (simp add: ci_at_Cons Cons.IH)
qed

lemma ci_at_nth:
  assumes "ci_at tok s i" "j < length tok"
  shows "lower_char (s ! (i + j)) = lower_char (tok ! j)"
proof -
  from assms(1) have le: "i + length tok \<le> length s"
    and eq: "map lower_char (take (length tok) (drop i s)) = map lower_char tok"
    by (simp_all add: ci_at_def lower_def)
  have "map lower_char (take (length tok) (drop i s)) ! j = lower_char (s ! (i + j))"
    using le assms(2) by simp
  moreover have "map lower_char tok ! j = lower_char (tok ! j)" using assms(2) by simp
  ultimately show ?thesis using eq by simp
qed

lemma ci_at_word:
  assumes "ci_at tok s i" "j < length tok" "list_all is_word_char tok"
  shows "is_word_char (s ! (i + j))"
proof -
  have "is_word_char (tok ! j)" using assms(2,3) by (simp add: list_all_length)
  then have "is_word_char (lower_char (tok ! j))" by (simp add: is_word_char_lower)
  then have "is_word_char (lower_char (s ! (i + j)))" using ci_at_nth[OF assms(1,2)] by simp
  then show ?thesis by (simp add: is_word_char_lower)
qed

lemma rmatch_lits:
  "i \<le> length s \<Longrightarrow> set (rmatch (lits tok) s i) = (if ci_at tok s i then {i + length tok} else {})"
proof (induction tok arbitrary: i)
  case Nil
  then show ?case by (simp add: ci_at_Nil)
next
  case (Cons c tok)
  show ?case
  proof (cases "i < length s \<and> lower_char (s ! i) = lower_char c")
    case True
    then have "Suc i \<le> length s" by simp
    from Cons.IH[OF this] True show ?thesis by (simp add: ci_at_Cons)
  next
    case False
    then show ?thesis by (auto simp: ci_at_Cons)
  qed
qed

lemma tok_ends_Nil: "tok_ends [] s i = {}"
  by (simp add: tok_ends_def)

lemma tok_ends_Cons:
  "tok_ends (t # T) s i = (if ci_at t s i then {i + length t} else {}) \<union> tok_ends T s i"
  by (auto simp: tok_ends_def)

lemma rmatch_lits_tok: "i \<le> length s \<Longrightarrow> set (rmatch (lits t) s i) = tok_ends [t] s i"
  by (simp add: rmatch_lits tok_ends_Cons tok_ends_Nil)

lemma rmatch_Cat_lits:
  "i \<le> length s \<Longrightarrow>
   set (rmatch (Cat (lits a) r) s i) = (if ci_at a s i then set (rmatch r s (i + length a)) else {})"
  using rmatch_lits[of i s a] by (cases "rmatch (lits a) s i") auto

lemma rmatch_opt_char:
  assumes "i \<le> length s"
  shows "set (rmatch (Cat (lits a) (Cat (Opt (Lit c)) (lits b))) s i)
           = tok_ends [a @ c # b, a @ b] s i"
proof (cases "ci_at a s i")
  case False
  then show ?thesis using assms
    by (simp add: rmatch_Cat_lits tok_ends_Cons tok_ends_Nil ci_at_append del: rmatch.simps)
next
  case True
  then have j: "i + length a \<le> length s" by (simp add: ci_at_def)
  let ?j = "i + length a"
  have opt: "set (rmatch (Cat (Opt (Lit c)) (lits b)) s ?j)
      = (if ?j < length s \<and> lower_char (s ! ?j) = lower_char c
         then set (rmatch (lits b) s (Suc ?j)) else {}) \<union> set (rmatch (lits b) s ?j)"
    by auto
  have b1: "set (rmatch (lits b) s ?j) = (if ci_at b s ?j then {?j + length b} else {})"
    using j by (rule rmatch_lits)
  have b2: "?j < length s \<Longrightarrow>
      set (rmatch (lits b) s (Suc ?j)) = (if ci_at b s (Suc ?j) then {Suc ?j + length b} else {})"
    by (intro rmatch_lits) simp
  show ?thesis
    using True assms b1 b2
    by (auto simp add: rmatch_Cat_lits opt tok_ends_Cons tok_ends_Nil ci_at_append ci_at_Cons
             simp del: rmatch.simps)
qed

lemma rmatch_opt_set2:
  assumes "i \<le> length s"
  shows "set (rmatch (Cat (lits a) (Cat (Opt (CharSet [c1, c2])) (lits b))) s i)
           = tok_ends [a @ c1 # b, a @ c2 # b, a @ b] s i"
proof (cases "ci_at a s i")
  case False
  then show ?thesis using assms
    by (simp add: rmatch_Cat_lits tok_ends_Cons tok_ends_Nil ci_at_append del: rmatch.simps)
next
  case True
  then have j: "i + length a \<le> length s" by (simp add: ci_at_def)
  let ?j = "i + length a"
  have opt: "set (rmatch (Cat (Opt (CharSet [c1, c2])) (lits b)) s ?j)
      = (if ?j < length s \<and> (lower_char (s ! ?j) = lower_char c1 \<or> lower_char (s ! ?j) = lower_char c2)
         then set (rmatch (lits b) s (Suc ?j)) else {}) \<union> set (rmatch (lits b) s ?j)"
    by auto
  have b1: "set (rmatch (lits b) s ?j) = (if ci_at b s ?j then {?j + length b} else {})"
    using j by (rule rmatch_lits)
  have b2: "?j < length s \<Longrightarrow>
      set (rmatch (lits b) s (Suc ?j)) = (if ci_at b s (Suc ?j) then {Suc ?j + length b} else {})"
    by (intro rmatch_lits) simp
  show ?thesis
    using True assms b1 b2
    by (auto simp add: rmatch_Cat_lits opt tok_ends_Cons tok_ends_Nil ci_at_append ci_at_Cons
             simp del: rmatch.simps)
qed

lemma tok_ends_append: "tok_ends (T1 @ T2) s i = tok_ends T1 s i \<union> tok_ends T2 s i"
  by (auto simp: tok_ends_def)

lemma list_ex_upto: "list_ex P [0..<Suc n] \<longleftrightarrow> (\<exists>i\<le>n. P i)"
  by (simp add: list_ex_iff Bex_def less_Suc_eq_le del: upt_Suc)

lemma re_search_iff: "re_search r s \<longleftrightarrow> (\<exists>i\<le>length s. set (rmatch r s i) \<noteq> {})"
  unfolding re_search_def list_ex_upto by simp

lemma ex_le_iff: "(\<And>i. P i \<Longrightarrow> i \<le> n) \<Longrightarrow> (\<exists>i\<le>n. P i) \<longleftrightarrow> (\<exists>i. P i)"
  by blast

lemma whole_word_iff:
  "whole_word wordc tok s \<longleftrightarrow>
     (\<exists>i. ci_at tok s i \<and> (i = 0 \<or> \<not> wordc (s ! (i - 1))) \<and>
          (i + length tok = length s \<or> \<not> wordc (s ! (i + length tok))))"
  unfolding whole_word_def list_ex_upto
  by (rule ex_le_iff) (simp add: ci_at_def)

lemma contains_ci_iff: "contains_ci tok s \<longleftrightarrow> (\<exists>i. ci_at tok s i)"
  unfolding contains_ci_def list_ex_upto by (rule ex_le_iff) (simp add: ci_at_def)

lemma boundary_before:
  assumes "ci_at tok s i" "tok \<noteq> []" "list_all is_word_char tok"
  shows "word_boundary s i \<longleftrightarrow> (i = 0 \<or> \<not> is_word_char (s ! (i - 1)))"
proof -
  have "is_word_char (s ! (i + 0))" using assms by (intro ci_at_word[of tok]) simp_all
  moreover have "i < length s" using assms(1,2) by (cases tok) (simp_all add: ci_at_def)
  ultimately show ?thesis by (auto simp: word_boundary_def)
qed

lemma boundary_after:
  assumes "ci_at tok s i" "tok \<noteq> []" "list_all is_word_char tok"
  shows "word_boundary s (i + length tok)
           \<longleftrightarrow> (i + length tok = length s \<or> \<not> is_word_char (s ! (i + length tok)))"
proof -
  have pos: "0 < length tok" using assms(2) by simp
  then have "is_word_char (s ! (i + (length tok - 1)))"
    using assms by (intro ci_at_word[of tok]) simp_all
  moreover have "i + (length tok - 1) = i + length tok - 1" using pos by arith
  moreover have "i + length tok \<le> length s" using assms(1) by (simp add: ci_at_def)
  ultimately show ?thesis using pos by (auto simp: word_boundary_def)
qed

lemma ci_at_le: "ci_at tok s i \<Longrightarrow> i \<le> length s"
  by (simp add: ci_at_def)

lemma bounded_search:
  assumes R: "\<And>i. i \<le> length s \<Longrightarrow> set (rmatch R s i) = tok_ends T s i"
    and T: "\<forall>tok\<in>set T. tok \<noteq> [] \<and> list_all is_word_char tok"
  shows "re_search (Cat WordB (Cat R WordB)) s
           \<longleftrightarrow> (\<exists>tok\<in>set T. whole_word is_word_char tok s)"
proof -
  have m: "set (rmatch (Cat WordB (Cat R WordB)) s i) \<noteq> {} \<longleftrightarrow>
       (\<exists>tok\<in>set T. ci_at tok s i \<and> word_boundary s i \<and> word_boundary s (i + length tok))"
    if "i \<le> length s" for i
  proof -
    have "set (rmatch (Cat WordB (Cat R WordB)) s i) \<noteq> {} \<longleftrightarrow>
        word_boundary s i \<and> (\<exists>j\<in>set (rmatch R s i). word_boundary s j)"
      by auto
    also have "\<dots> \<longleftrightarrow> word_boundary s i \<and> (\<exists>j\<in>tok_ends T s i. word_boundary s j)"
      using R[OF that] by simp
    also have "\<dots> \<longleftrightarrow>
        (\<exists>tok\<in>set T. ci_at tok s i \<and> word_boundary s i \<and> word_boundary s (i + length tok))"
      by (auto simp: tok_ends_def)
    finally show ?thesis .
  qed
  have b: "ci_at tok s i \<and> word_boundary s i \<and> word_boundary s (i + length tok) \<longleftrightarrow>
      ci_at tok s i \<and> (i = 0 \<or> \<not> is_word_char (s ! (i - 1))) \<and>
      (i + length tok = length s \<or> \<not> is_word_char (s ! (i + length tok)))"
    if "tok \<in> set T" for tok i
  proof (cases "ci_at tok s i")
    case True
    from T that have "tok \<noteq> []" "list_all is_word_char tok" by auto
    from boundary_before[OF True this] boundary_after[OF True this] show ?thesis by simp
  next
    case False
    then show ?thesis by simp
  qed
  have "re_search (Cat WordB (Cat R WordB)) s \<longleftrightarrow>
      (\<exists>i\<le>length s. \<exists>tok\<in>set T. ci_at tok s i \<and> word_boundary s i \<and>
         word_boundary s (i + length tok))"
    unfolding re_search_iff using m by blast
  also have "\<dots> \<longleftrightarrow> (\<exists>i\<le>length s. \<exists>tok\<in>set T. ci_at tok s i \<and>
        (i = 0 \<or> \<not> is_word_char (s ! (i - 1))) \<and>
        (i + length tok = length s \<or> \<not> is_word_char (s ! (i + length tok))))"
    using b by blast
  also have "\<dots> \<longleftrightarrow> (\<exists>tok\<in>set T. whole_word is_word_char tok s)"
    unfolding whole_word_iff using ci_at_le by blast
  finally show ?thesis .
qed

lemma unbounded_search:
  assumes R: "\<And>i. i \<le> length s \<Longrightarrow> set (rmatch R s i) = tok_ends T s i"
  shows "re_search R s \<longleftrightarrow> (\<exists>tok\<in>set T. contains_ci tok s)"
proof -
  have "(set (rmatch R s i) \<noteq> {}) = (tok_ends T s i \<noteq> {})" if "i \<le> length s" for i
    by (simp only: R[OF that])
  then have "re_search R s \<longleftrightarrow> (\<exists>i\<le>length s. tok_ends T s i \<noteq> {})"
    unfolding re_search_iff by blast
  also have "\<dots> \<longleftrightarrow> (\<exists>i\<le>length s. \<exists>tok\<in>set T. ci_at tok s i)"
    by (auto simp: tok_ends_def)
  also have "\<dots> \<longleftrightarrow> (\<exists>tok\<in>set T. \<exists>i. ci_at tok s i)"
    using ci_at_le by blast
  finally show ?thesis by (simp add: contains_ci_iff)
qed

lemma re_search_Alt: "re_search (Alt p q) s \<longleftrightarrow> re_search p s \<or> re_search q s"
  unfolding re_search_iff by auto

lemma tok_ends_Cons2:
  "tok_ends (t # u # T) s i = tok_ends [t] s i \<union> tok_ends (u # T) s i"
  by (auto simp: tok_ends_def)

lemma tok_ends_split10:
  "tok_ends [a, b, c1, c2, d1, d2, e1, e2, f, g] s i
     = tok_ends [a] s i \<union> (tok_ends [b] s i \<union> (tok_ends [c1, c2] s i \<union>
         (tok_ends [d1, d2] s i \<union> (tok_ends [e1, e2] s i \<union>
            (tok_ends [f] s i \<union> tok_ends [g] s i)))))"
  by (auto simp: tok_ends_def)

lemma ecg_inner:
  assumes le: "i \<le> length s"
  shows "set (rmatch (alts (lits ''x1'') [lits ''x2'', lits ''leog'', lits ''reog'']) s i)
           = tok_ends ecg_keywords s i"
  unfolding ecg_keywords_def
  by (simp only: alts.simps rmatch.simps(6) set_append rmatch_lits_tok[OF le] tok_ends_Cons2)

lemma ignore_inner:
  assumes le: "i \<le> length s"
  shows "set (rmatch (alts (lits ''x3'')
          [lits ''trigger'',
           Cat (lits ''time'') (Cat (Opt (Lit CHR ''_'')) (lits ''offset'')),
           Cat (lits ''adc'') (Cat (Opt (Lit CHR ''_'')) (lits ''status'')),
           Cat (lits ''adc'') (Cat (Opt (Lit CHR ''_'')) (lits ''sequence'')),
           lits ''event'',
           lits ''comments'']) s i)
           = tok_ends ignore_keywords s i"
proof -
  have k: "ignore_keywords =
     [''x3'', ''trigger'', ''time'' @ CHR ''_'' # ''offset'', ''time'' @ ''offset'',
      ''adc'' @ CHR ''_'' # ''status'', ''adc'' @ ''status'',
      ''adc'' @ CHR ''_'' # ''sequence'', ''adc'' @ ''sequence'', ''event'', ''comments'']"
    by (simp add: ignore_keywords_def)
  show ?thesis
    unfolding k tok_ends_split10
    by (simp only: alts.simps rmatch.simps(6) set_append rmatch_lits_tok[OF le]
          rmatch_opt_char[OF le])
qed

lemma word_tokens:
  "\<forall>tok\<in>set EEG_NAMES. tok \<noteq> [] \<and> list_all is_word_char tok"
  "\<forall>tok\<in>set ecg_keywords. tok \<noteq> [] \<and> list_all is_word_char tok"
  "\<forall>tok\<in>set ignore_keywords. tok \<noteq> [] \<and> list_all is_word_char tok"
  "\<forall>tok\<in>set [''cm'']. tok \<noteq> [] \<and> list_all is_word_char tok"
  by code_simp+

lemma eeg_pattern_iff:
  assumes "name \<in> set EEG_NAMES"
  shows "re_search (eeg_pattern name) s \<longleftrightarrow> whole_word is_word_char name s"
proof -
  have "\<forall>tok\<in>set [name]. tok \<noteq> [] \<and> list_all is_word_char tok"
    using word_tokens(1) assms by simp
  from bounded_search[of s "re_escape name" "[name]", OF _ this]
  show ?thesis by (simp add: eeg_pattern_def re_escape_def rmatch_lits_tok del: rmatch.simps)
qed

lemma ecg_pattern_iff:
  "re_search ecg_pattern s \<longleftrightarrow> (\<exists>tok\<in>set ecg_keywords. whole_word is_word_char tok s)"
  unfolding ecg_pattern_def by (rule bounded_search[OF ecg_inner word_tokens(2)])

lemma ignore_pattern_iff:
  "re_search ignore_pattern s \<longleftrightarrow> (\<exists>tok\<in>set ignore_keywords. whole_word is_word_char tok s)"
  unfolding ignore_pattern_def by (rule bounded_search[OF ignore_inner word_tokens(3)])

lemma cm_pattern_iff:
  "re_search cm_pattern s \<longleftrightarrow>
     whole_word is_word_char ''cm'' s \<or> (\<exists>p\<in>set cm_phrases. contains_ci p s)"
proof -
  have a: "re_search (Cat WordB (Cat (lits ''cm'') WordB)) s
      \<longleftrightarrow> (\<exists>tok\<in>set [''cm'']. whole_word is_word_char tok s)"
    by (rule bounded_search[OF rmatch_lits_tok word_tokens(4)])
  have p: "cm_phrases = [''common'' @ CHR ''_'' # ''mode'', ''common'' @ CHR '' '' # ''mode'',
      ''common'' @ ''mode'']"
    by (simp add: cm_phrases_def)
  have b: "re_search (Cat (lits ''common'') (Cat (Opt (CharSet ''_ '')) (lits ''mode''))) s
      \<longleftrightarrow> (\<exists>p\<in>set cm_phrases. contains_ci p s)"
    unfolding p by (rule unbounded_search[OF rmatch_opt_set2])
  show ?thesis unfolding cm_pattern_def re_search_Alt a b by simp
qed

text \<open>
  C2, amended. For every ASCII column name, each whole-word pattern matches the name exactly
  when one of its tokens occurs in the name, letters compared without case, with on each side
  the edge of the string or a character that is not a word character, the word characters
  being the letters, the digits and the underscore: so for each of the 21 EEG labels, for
  \<open>x1\<close>, \<open>x2\<close>, \<open>leog\<close>, \<open>reog\<close>, for the Ignore keywords, and for \<open>cm\<close>. The CommonMode
  pattern matches also when \<open>common_mode\<close>, \<open>common mode\<close> or \<open>commonmode\<close> occurs anywhere
  in the name.
\<close>

theorem whole_word_patterns:
  "isascii c \<longrightarrow>
     (name \<in> set EEG_NAMES \<longrightarrow>
        re_search (eeg_pattern name) c = whole_word is_word_char name c) \<and>
     re_search ecg_pattern c = (\<exists>tok\<in>set ecg_keywords. whole_word is_word_char tok c) \<and>
     re_search ignore_pattern c = (\<exists>tok\<in>set ignore_keywords. whole_word is_word_char tok c) \<and>
     re_search cm_pattern c
       = (whole_word is_word_char ''cm'' c \<or> (\<exists>p\<in>set cm_phrases. contains_ci p c))"
proof (intro impI conjI)
  show "re_search (eeg_pattern name) c = whole_word is_word_char name c"
    if "name \<in> set EEG_NAMES"
    using that by (rule eeg_pattern_iff)
  show "re_search ecg_pattern c = (\<exists>tok\<in>set ecg_keywords. whole_word is_word_char tok c)"
    by (rule ecg_pattern_iff)
  show "re_search ignore_pattern c
      = (\<exists>tok\<in>set ignore_keywords. whole_word is_word_char tok c)"
    by (rule ignore_pattern_iff)
  show "re_search cm_pattern c
      = (whole_word is_word_char ''cm'' c \<or> (\<exists>p\<in>set cm_phrases. contains_ci p c))"
    by (rule cm_pattern_iff)
qed

text \<open>
  C2, as stated, fails: in \<open>cm_1\<close> the token \<open>cm\<close> stands between the edge of the string
  and an underscore, which is not alphanumeric, and the CommonMode pattern does not match.
\<close>

theorem whole_word_alnum_counterexample:
  "whole_word is_alnum_char ''cm'' ''cm_1'' \<and> \<not> re_search cm_pattern ''cm_1'' \<and>
   find_cm_cols [''cm_1''] = []"
  by code_simp

theorem whole_word_patterns_witness:
  "isascii ''EEG Fz-A1'' \<and> isascii ''Fz_raw'' \<and> isascii ''comments'' \<and>
   re_search (eeg_pattern ''Fz'') ''EEG Fz-A1'' \<and> \<not> re_search (eeg_pattern ''Fz'') ''Fz_raw'' \<and>
   \<not> re_search cm_pattern ''comments''"
proof -
  have n: "''Fz'' \<in> set EEG_NAMES" by (simp add: EEG_NAMES_def)
  have i1: "isascii ''EEG Fz-A1''" and i2: "isascii ''Fz_raw''" and i3: "isascii ''comments''"
    by code_simp+
  have w1: "whole_word is_word_char ''Fz'' ''EEG Fz-A1''"
    and w2: "\<not> whole_word is_word_char ''Fz'' ''Fz_raw''"
    and w3: "\<not> (whole_word is_word_char ''cm'' ''comments'' \<or>
                (\<exists>p\<in>set cm_phrases. contains_ci p ''comments''))"
    by code_simp+
  note e1 = whole_word_patterns [of "''EEG Fz-A1''" "''Fz''", THEN mp, OF i1, THEN conjunct1,
      THEN mp, OF n]
  note e2 = whole_word_patterns [of "''Fz_raw''" "''Fz''", THEN mp, OF i2, THEN conjunct1,
      THEN mp, OF n]
  note e3 = whole_word_patterns [of "''comments''" "''Fz''", THEN mp, OF i3, THEN conjunct2,
      THEN conjunct2, THEN conjunct2]
  have a: "re_search (eeg_pattern ''Fz'') ''EEG Fz-A1''" unfolding e1 by (rule w1)
  have b: "\<not> re_search (eeg_pattern ''Fz'') ''Fz_raw''" unfolding e2 by (rule w2)
  have c: "\<not> re_search cm_pattern ''comments''" unfolding e3 by (rule w3)
  from i1 i2 i3 a b c show ?thesis by (intro conjI)
qed

section \<open>The role groups\<close>

lemma fromkeys_set: "set (fromkeys seen xs) = set xs - set seen"
  by (induction xs arbitrary: seen) auto

lemma fromkeys_distinct: "distinct (fromkeys seen xs)"
  by (induction xs arbitrary: seen) (auto simp: fromkeys_set)

lemma find_eeg_cols_subset: "set (find_eeg_cols cols) \<subseteq> set cols"
  by (auto simp: find_eeg_cols_def fromkeys_set)

lemma find_eeg_cols_distinct: "distinct (find_eeg_cols cols)"
  by (simp add: find_eeg_cols_def fromkeys_distinct)

lemma select_dtypes_number_subset: "set (select_dtypes_number df) \<subseteq> set (columns df)"
  by (auto simp: select_dtypes_number_def columns_def)

lemma select_dtypes_number_distinct:
  "distinct (columns df) \<Longrightarrow> distinct (select_dtypes_number df)"
  unfolding select_dtypes_number_def columns_def by (rule distinct_map_filter)

lemma classify_fields:
  assumes "classify df = Inr k"
  shows "find_time_col (columns df) = Inr (time_col k)"
    and "ecg_cols k = filter (\<lambda>c. c \<notin> set (find_ignore_cols (columns df)))
                             (find_ecg_cols (columns df))"
    and "cm_cols k = filter (\<lambda>c. c \<notin> set (find_ignore_cols (columns df)))
                            (find_cm_cols (columns df))"
    and "eeg_cols k =
           (if filter (\<lambda>c. c \<notin> set (find_ignore_cols (columns df)))
                      (find_eeg_cols (columns df)) = []
            then filter (\<lambda>c. c \<notin> set ([time_col k] @ ecg_cols k @ cm_cols k
                                           @ find_ignore_cols (columns df)))
                        (select_dtypes_number df)
            else filter (\<lambda>c. c \<notin> set (find_ignore_cols (columns df)))
                        (find_eeg_cols (columns df)))"
  using assms unfolding classify_def by (auto simp: Let_def split: sum.splits)

lemma classify_total:
  "df_columns df \<noteq> [] \<Longrightarrow> \<exists>k. classify df = Inr k"
proof -
  assume "df_columns df \<noteq> []"
  then have "columns df \<noteq> []" by (simp add: columns_def)
  from find_time_col_nonempty[OF this] obtain t where "find_time_col (columns df) = Inr t"
    by blast
  then show ?thesis unfolding classify_def by (simp add: Let_def)
qed

lemma eeg_filter_empty_iff:
  "filter (\<lambda>c. c \<notin> set ign) eeg = [] \<longleftrightarrow> set eeg \<subseteq> set ign"
  by (auto simp: filter_empty_conv)

lemma groups_subset_columns:
  assumes "classify df = Inr k"
  shows "set (eeg_cols k) \<subseteq> set (columns df)" "set (ecg_cols k) \<subseteq> set (columns df)"
    "set (cm_cols k) \<subseteq> set (columns df)"
proof -
  show "set (ecg_cols k) \<subseteq> set (columns df)"
    by (auto simp: classify_fields(2)[OF assms] find_ecg_cols_def)
  show "set (cm_cols k) \<subseteq> set (columns df)"
    by (auto simp: classify_fields(3)[OF assms] find_cm_cols_def)
  show "set (eeg_cols k) \<subseteq> set (columns df)"
    using find_eeg_cols_subset[of "columns df"] select_dtypes_number_subset[of df]
    by (auto simp: classify_fields(4)[OF assms] split: if_splits)
qed

lemma groups_not_ignored:
  assumes "classify df = Inr k"
  shows "set (eeg_cols k) \<inter> set (find_ignore_cols (columns df)) = {}"
    "set (ecg_cols k) \<inter> set (find_ignore_cols (columns df)) = {}"
    "set (cm_cols k) \<inter> set (find_ignore_cols (columns df)) = {}"
proof -
  show "set (ecg_cols k) \<inter> set (find_ignore_cols (columns df)) = {}"
    by (auto simp: classify_fields(2)[OF assms])
  show "set (cm_cols k) \<inter> set (find_ignore_cols (columns df)) = {}"
    by (auto simp: classify_fields(3)[OF assms])
  show "set (eeg_cols k) \<inter> set (find_ignore_cols (columns df)) = {}"
    by (auto simp: classify_fields(4)[OF assms] split: if_splits)
qed

lemma groups_distinct:
  assumes "classify df = Inr k" "distinct (columns df)"
  shows "distinct (eeg_cols k)" "distinct (ecg_cols k)" "distinct (cm_cols k)"
proof -
  show "distinct (ecg_cols k)"
    using assms(2) by (simp add: classify_fields(2)[OF assms(1)] find_ecg_cols_def)
  show "distinct (cm_cols k)"
    using assms(2) by (simp add: classify_fields(3)[OF assms(1)] find_cm_cols_def)
  show "distinct (eeg_cols k)"
    using select_dtypes_number_distinct[OF assms(2)] find_eeg_cols_distinct[of "columns df"]
    by (simp add: classify_fields(4)[OF assms(1)])
qed

lemma one_occurrence: "distinct xs \<Longrightarrow> x \<in> set xs \<Longrightarrow> length (filter (\<lambda>c. c = x) xs) = 1"
proof (induction xs)
  case Nil
  then show ?case by simp
next
  case (Cons a xs)
  show ?case
  proof (cases "a = x")
    case True
    with Cons.prems have "x \<notin> set xs" by simp
    then have "filter (\<lambda>c. c = x) xs = []" by (auto simp add: filter_empty_conv)
    with True show ?thesis by simp
  next
    case False
    with Cons show ?thesis by simp
  qed
qed

lemma ignored_iff: "c \<in> set (find_ignore_cols cols) \<longleftrightarrow> c \<in> set cols \<and> re_search ignore_pattern c"
  by (simp add: find_ignore_cols_def)

lemma classify_fallback_frame:
  "classify fallback_frame =
     Inr \<lparr>time_col = ''t'', eeg_cols = [''ch1''], ecg_cols = [''X2''], cm_cols = []\<rparr>"
  by code_simp

lemma classify_overlap_frame:
  "classify overlap_frame =
     Inr \<lparr>time_col = ''time_offset'', eeg_cols = [''Fp1-LEOG''], ecg_cols = [''Fp1-LEOG''],
          cm_cols = []\<rparr>"
  by code_simp

lemma fallback_frame_matches:
  "re_search ignore_pattern ''Fz event''" "re_search (eeg_pattern ''Fz'') ''Fz event''"
  "find_ignore_cols (columns fallback_frame) = [''Fz event'']"
  "find_eeg_cols (columns fallback_frame) = [''Fz event'']"
  by code_simp+

text \<open>
  C3, amended. For a frame with at least one column and pairwise different column names,
  classification succeeds and exactly one column is the Time column; the EEG, ECG and
  CommonMode groups have no repeated entry, hold only columns of the frame, and are each
  disjoint from the Ignored group; when every column matched by an EEG label is Ignored (the
  fallback), the EEG group holds neither the Time column nor a column of the ECG or the
  CommonMode group.
\<close>

theorem classify_groups:
  "wf_frame df \<longrightarrow>
     (\<exists>k. classify df = Inr k \<and>
        length (filter (\<lambda>c. c = time_col k) (columns df)) = 1 \<and>
        distinct (eeg_cols k) \<and> distinct (ecg_cols k) \<and> distinct (cm_cols k) \<and>
        set (eeg_cols k) \<union> set (ecg_cols k) \<union> set (cm_cols k) \<subseteq> set (columns df) \<and>
        (set (eeg_cols k) \<union> set (ecg_cols k) \<union> set (cm_cols k))
           \<inter> set (find_ignore_cols (columns df)) = {} \<and>
        (set (find_eeg_cols (columns df)) \<subseteq> set (find_ignore_cols (columns df)) \<longrightarrow>
           time_col k \<notin> set (eeg_cols k) \<and>
           set (eeg_cols k) \<inter> set (ecg_cols k) = {} \<and>
           set (eeg_cols k) \<inter> set (cm_cols k) = {}))"
proof
  assume wf: "wf_frame df"
  then have ne: "df_columns df \<noteq> []" and dist: "distinct (columns df)"
    by (simp_all add: wf_frame_def)
  from classify_total[OF ne] obtain k where k: "classify df = Inr k" by blast
  have t: "time_col k \<in> set (columns df)"
    using classify_fields(1)[OF k] by (rule find_time_col_in_columns)
  have one: "length (filter (\<lambda>c. c = time_col k) (columns df)) = 1"
    using dist t by (rule one_occurrence)
  have fb: "time_col k \<notin> set (eeg_cols k) \<and> set (eeg_cols k) \<inter> set (ecg_cols k) = {} \<and>
      set (eeg_cols k) \<inter> set (cm_cols k) = {}"
    if "set (find_eeg_cols (columns df)) \<subseteq> set (find_ignore_cols (columns df))"
  proof -
    from that have "filter (\<lambda>c. c \<notin> set (find_ignore_cols (columns df)))
                      (find_eeg_cols (columns df)) = []"
      by (simp add: eeg_filter_empty_iff)
    then have "eeg_cols k = filter (\<lambda>c. c \<notin> set ([time_col k] @ ecg_cols k @ cm_cols k
                                           @ find_ignore_cols (columns df)))
                        (select_dtypes_number df)"
      using classify_fields(4)[OF k] by simp
    then have "set (eeg_cols k) \<inter> set ([time_col k] @ ecg_cols k @ cm_cols k) = {}"
      by auto
    then show ?thesis by auto
  qed
  show "\<exists>k. classify df = Inr k \<and>
        length (filter (\<lambda>c. c = time_col k) (columns df)) = 1 \<and>
        distinct (eeg_cols k) \<and> distinct (ecg_cols k) \<and> distinct (cm_cols k) \<and>
        set (eeg_cols k) \<union> set (ecg_cols k) \<union> set (cm_cols k) \<subseteq> set (columns df) \<and>
        (set (eeg_cols k) \<union> set (ecg_cols k) \<union> set (cm_cols k))
           \<inter> set (find_ignore_cols (columns df)) = {} \<and>
        (set (find_eeg_cols (columns df)) \<subseteq> set (find_ignore_cols (columns df)) \<longrightarrow>
           time_col k \<notin> set (eeg_cols k) \<and>
           set (eeg_cols k) \<inter> set (ecg_cols k) = {} \<and>
           set (eeg_cols k) \<inter> set (cm_cols k) = {})"
    apply (rule exI[of _ k])
    using k one groups_distinct[OF k dist] groups_subset_columns[OF k] groups_not_ignored[OF k] fb
    by (simp add: Int_Un_distrib2)
qed

lemma fallback_frame_words:
  "whole_word is_word_char ''event'' ''Fz event''" "whole_word is_word_char ''Fz'' ''Fz event''"
  by code_simp+

text \<open>
  C4, amended. A column whose name is ASCII and has an occurrence of an Ignore keyword
  (\<open>x3\<close>, \<open>trigger\<close>, \<open>time_offset\<close> or \<open>timeoffset\<close>, \<open>adc_status\<close>, \<open>adc_sequence\<close>,
  with or without the underscore, \<open>event\<close>, \<open>comments\<close>; letters compared without case) with,
  on each side, the edge of the string or a character that is not a word character, the word
  characters being the letters, the digits and the underscore, is in none of the EEG, ECG and
  CommonMode groups, whatever else its name matches and whether or not the EEG group comes from
  the fallback.
\<close>

theorem ignored_excluded_from_groups:
  "classify df = Inr k \<and> isascii c \<and> tok \<in> set ignore_keywords \<and>
   whole_word is_word_char tok c \<longrightarrow>
     c \<notin> set (eeg_cols k) \<and> c \<notin> set (ecg_cols k) \<and> c \<notin> set (cm_cols k)"
proof
  assume h: "classify df = Inr k \<and> isascii c \<and> tok \<in> set ignore_keywords \<and>
    whole_word is_word_char tok c"
  then have k: "classify df = Inr k" by simp
  from h have m: "re_search ignore_pattern c" unfolding ignore_pattern_iff by blast
  have "c \<in> set (columns df) \<Longrightarrow> c \<in> set (find_ignore_cols (columns df))"
    using m by (simp add: ignored_iff)
  then show "c \<notin> set (eeg_cols k) \<and> c \<notin> set (ecg_cols k) \<and> c \<notin> set (cm_cols k)"
    using groups_subset_columns[OF k] groups_not_ignored[OF k] by blast
qed

theorem ignored_excluded_from_groups_witness:
  "isascii ''Fz event'' \<and> whole_word is_word_char ''event'' ''Fz event'' \<and>
   whole_word is_word_char ''Fz'' ''Fz event'' \<and>
   ''Fz event'' \<notin> set (eeg_cols \<lparr>time_col = ''t'', eeg_cols = [''ch1''], ecg_cols = [''X2''],
                                     cm_cols = []\<rparr>)"
proof -
  have t: "''event'' \<in> set ignore_keywords" by (simp add: ignore_keywords_def)
  have a: "isascii ''Fz event''" by code_simp
  note r = ignored_excluded_from_groups [of fallback_frame
      "\<lparr>time_col = ''t'', eeg_cols = [''ch1''], ecg_cols = [''X2''], cm_cols = []\<rparr>"
      "''Fz event''" "''event''", THEN mp, OF conjI [OF classify_fallback_frame
        conjI [OF a conjI [OF t fallback_frame_words(1)]]], THEN conjunct1]
  from a fallback_frame_words r show ?thesis by (intro conjI)
qed

lemma classify_event_id_frame:
  "classify event_id_frame =
     Inr \<lparr>time_col = ''Time'', eeg_cols = [''Fz event_id''], ecg_cols = [], cm_cols = []\<rparr>"
  by code_simp

text \<open>
  C4, as stated, fails when a whole word is bounded by characters that are not alphanumeric:
  in \<open>Fz event_id\<close> the keyword \<open>event\<close> stands between a blank and an underscore, the
  Ignore pattern does not match the name, and the column is in the EEG group.
\<close>

theorem ignored_alnum_counterexample:
  "whole_word is_alnum_char ''event'' ''Fz event_id'' \<and>
   \<not> re_search ignore_pattern ''Fz event_id'' \<and>
   classify event_id_frame =
     Inr \<lparr>time_col = ''Time'', eeg_cols = [''Fz event_id''], ecg_cols = [], cm_cols = []\<rparr>"
proof -
  have "whole_word is_alnum_char ''event'' ''Fz event_id''"
    and "\<not> re_search ignore_pattern ''Fz event_id''"
    by code_simp+
  with classify_event_id_frame show ?thesis by (intro conjI)
qed

lemma wf_fallback_frame: "wf_frame fallback_frame"
  by (simp add: wf_frame_def fallback_frame_def columns_def nrows_def)

theorem classify_groups_witness:
  "wf_frame fallback_frame \<and>
     (\<exists>k. classify fallback_frame = Inr k \<and>
        length (filter (\<lambda>c. c = time_col k) (columns fallback_frame)) = 1 \<and>
        distinct (eeg_cols k) \<and> distinct (ecg_cols k) \<and> distinct (cm_cols k) \<and>
        set (eeg_cols k) \<union> set (ecg_cols k) \<union> set (cm_cols k) \<subseteq> set (columns fallback_frame) \<and>
        (set (eeg_cols k) \<union> set (ecg_cols k) \<union> set (cm_cols k))
           \<inter> set (find_ignore_cols (columns fallback_frame)) = {} \<and>
        (set (find_eeg_cols (columns fallback_frame))
            \<subseteq> set (find_ignore_cols (columns fallback_frame)) \<longrightarrow>
           time_col k \<notin> set (eeg_cols k) \<and>
           set (eeg_cols k) \<inter> set (ecg_cols k) = {} \<and>
           set (eeg_cols k) \<inter> set (cm_cols k) = {}))"
  using classify_groups [of fallback_frame, THEN mp, OF wf_fallback_frame] wf_fallback_frame
  by (rule conjI[rotated])

text \<open>
  C3, as the code has it. The groups found by name are not kept apart from each other: in
  \<open>overlap_frame\<close> the column \<open>Fp1-LEOG\<close> is in the EEG and in the ECG group, and the Time
  column \<open>time_offset\<close> is also an Ignored column.
\<close>

theorem roles_disjoint_counterexample:
  "classify overlap_frame =
     Inr \<lparr>time_col = ''time_offset'', eeg_cols = [''Fp1-LEOG''], ecg_cols = [''Fp1-LEOG''],
          cm_cols = []\<rparr> \<and>
   \<not> roles_disjoint overlap_frame
       \<lparr>time_col = ''time_offset'', eeg_cols = [''Fp1-LEOG''], ecg_cols = [''Fp1-LEOG''],
        cm_cols = []\<rparr>"
proof -
  have "set (eeg_cols \<lparr>time_col = ''time_offset'', eeg_cols = [''Fp1-LEOG''],
                       ecg_cols = [''Fp1-LEOG''], cm_cols = []\<rparr>)
        \<inter> set (ecg_cols \<lparr>time_col = ''time_offset'', eeg_cols = [''Fp1-LEOG''],
                       ecg_cols = [''Fp1-LEOG''], cm_cols = []\<rparr>) \<noteq> {}"
    by simp
  then have "\<not> roles_disjoint overlap_frame
       \<lparr>time_col = ''time_offset'', eeg_cols = [''Fp1-LEOG''], ecg_cols = [''Fp1-LEOG''],
        cm_cols = []\<rparr>"
    unfolding roles_disjoint_def Let_def by blast
  with classify_overlap_frame show ?thesis by (intro conjI)
qed

text \<open>
  C9. When the EEG labels match no column outside the Ignored group, the EEG group is the
  columns of number dtype, in table order, without the Time column and without the columns of
  the ECG, CommonMode and Ignored groups; so a numeric column that is none of these is in the
  EEG group, which is then not empty.
\<close>

theorem eeg_fallback:
  "classify df = Inr k \<and>
   set (find_eeg_cols (columns df)) \<subseteq> set (find_ignore_cols (columns df)) \<longrightarrow>
     eeg_cols k = filter (\<lambda>c. c \<noteq> time_col k \<and> c \<notin> set (ecg_cols k) \<and> c \<notin> set (cm_cols k) \<and>
                               c \<notin> set (find_ignore_cols (columns df)))
                         (select_dtypes_number df) \<and>
     (\<forall>col\<in>set (df_columns df).
        col_numeric col \<and> col_name col \<noteq> time_col k \<and> col_name col \<notin> set (ecg_cols k) \<and>
        col_name col \<notin> set (cm_cols k) \<and> col_name col \<notin> set (find_ignore_cols (columns df))
        \<longrightarrow> col_name col \<in> set (eeg_cols k) \<and> eeg_cols k \<noteq> [])"
proof
  assume h: "classify df = Inr k \<and>
    set (find_eeg_cols (columns df)) \<subseteq> set (find_ignore_cols (columns df))"
  then have k: "classify df = Inr k" by simp
  from h have "filter (\<lambda>c. c \<notin> set (find_ignore_cols (columns df)))
                      (find_eeg_cols (columns df)) = []"
    by (simp add: eeg_filter_empty_iff)
  then have "eeg_cols k = filter (\<lambda>c. c \<notin> set ([time_col k] @ ecg_cols k @ cm_cols k
                                           @ find_ignore_cols (columns df)))
                        (select_dtypes_number df)"
    using classify_fields(4)[OF k] by simp
  then have e: "eeg_cols k
      = filter (\<lambda>c. c \<noteq> time_col k \<and> c \<notin> set (ecg_cols k) \<and> c \<notin> set (cm_cols k) \<and>
                     c \<notin> set (find_ignore_cols (columns df)))
               (select_dtypes_number df)"
    by (simp cong: filter_cong)
  have m: "col_name col \<in> set (eeg_cols k)"
    if "col \<in> set (df_columns df)" "col_numeric col" "col_name col \<noteq> time_col k"
      "col_name col \<notin> set (ecg_cols k)" "col_name col \<notin> set (cm_cols k)"
      "col_name col \<notin> set (find_ignore_cols (columns df))" for col
  proof -
    from that(1,2) have "col_name col \<in> set (select_dtypes_number df)"
      by (simp add: select_dtypes_number_def)
    with that(3-6) show ?thesis by (subst e) simp
  qed
  have "\<forall>col\<in>set (df_columns df).
        col_numeric col \<and> col_name col \<noteq> time_col k \<and> col_name col \<notin> set (ecg_cols k) \<and>
        col_name col \<notin> set (cm_cols k) \<and> col_name col \<notin> set (find_ignore_cols (columns df))
        \<longrightarrow> col_name col \<in> set (eeg_cols k) \<and> eeg_cols k \<noteq> []"
  proof (intro ballI impI)
    fix col assume c: "col \<in> set (df_columns df)"
      and p: "col_numeric col \<and> col_name col \<noteq> time_col k \<and> col_name col \<notin> set (ecg_cols k) \<and>
        col_name col \<notin> set (cm_cols k) \<and> col_name col \<notin> set (find_ignore_cols (columns df))"
    from m[OF c] p have "col_name col \<in> set (eeg_cols k)" by blast
    then show "col_name col \<in> set (eeg_cols k) \<and> eeg_cols k \<noteq> []" by auto
  qed
  with e show "eeg_cols k = filter (\<lambda>c. c \<noteq> time_col k \<and> c \<notin> set (ecg_cols k) \<and> c \<notin> set (cm_cols k) \<and>
                               c \<notin> set (find_ignore_cols (columns df)))
                         (select_dtypes_number df) \<and>
     (\<forall>col\<in>set (df_columns df).
        col_numeric col \<and> col_name col \<noteq> time_col k \<and> col_name col \<notin> set (ecg_cols k) \<and>
        col_name col \<notin> set (cm_cols k) \<and> col_name col \<notin> set (find_ignore_cols (columns df))
        \<longrightarrow> col_name col \<in> set (eeg_cols k) \<and> eeg_cols k \<noteq> [])"
    by (rule conjI)
qed

theorem eeg_fallback_witness:
  "set (find_eeg_cols (columns fallback_frame)) \<subseteq> set (find_ignore_cols (columns fallback_frame)) \<and>
   eeg_cols \<lparr>time_col = ''t'', eeg_cols = [''ch1''], ecg_cols = [''X2''], cm_cols = []\<rparr>
     = filter (\<lambda>c. c \<noteq> ''t'' \<and> c \<notin> set [''X2''] \<and> c \<notin> set [] \<and> c \<notin> set [''Fz event''])
              (select_dtypes_number fallback_frame)"
proof -
  have s: "set (find_eeg_cols (columns fallback_frame))
             \<subseteq> set (find_ignore_cols (columns fallback_frame))"
    by (simp only: fallback_frame_matches(3,4) subset_refl)
  note r = eeg_fallback [of fallback_frame
      "\<lparr>time_col = ''t'', eeg_cols = [''ch1''], ecg_cols = [''X2''], cm_cols = []\<rparr>",
      THEN mp, OF conjI [OF classify_fallback_frame s], THEN conjunct1]
  from r have "eeg_cols \<lparr>time_col = ''t'', eeg_cols = [''ch1''], ecg_cols = [''X2''], cm_cols = []\<rparr>
     = filter (\<lambda>c. c \<noteq> ''t'' \<and> c \<notin> set [''X2''] \<and> c \<notin> set [] \<and> c \<notin> set [''Fz event''])
              (select_dtypes_number fallback_frame)"
    by (simp only: fallback_frame_matches(3) classification.simps)
  with s show ?thesis by (rule conjI)
qed

section \<open>The figure\<close>

lemma getitem_columns: "c \<in> set (columns df) \<Longrightarrow> \<exists>y. getitem df c = Inr y"
proof -
  assume "c \<in> set (columns df)"
  then obtain col where "col \<in> set (df_columns df)" "col_name col = c" by (auto simp: columns_def)
  then have "List.find (\<lambda>col. col_name col = c) (df_columns df) \<noteq> None"
    by (auto simp add: find_None_iff)
  then show ?thesis by (auto simp: getitem_def)
qed

lemma getitem_cells: "c \<in> set (columns df) \<Longrightarrow> getitem df c = Inr (cells df c)"
  using getitem_columns[of c df] by (auto simp: cells_def)

lemma scaled_coerce:
  "float_cells (truediv (to_numeric_coerce parse ys) 1000) = map (scaled parse) ys"
  by (induction ys)
     (auto simp: float_cells_def truediv_def to_numeric_coerce_def scaled_def
           split: cell.splits option.splits)

lemma add_eeg_closed:
  assumes "t \<in> set (columns df)" "set cs \<subseteq> set (columns df)"
  shows "add_eeg df t cs (data, idx)
           = Inr (data @ map (eeg_trace df t) cs, idx @ [length data..<length data + length cs])"
  using assms(2)
proof (induction cs arbitrary: data idx)
  case Nil
  then show ?case by simp
next
  case (Cons c cs)
  then have c: "getitem df c = Inr (cells df c)" and cs: "set cs \<subseteq> set (columns df)"
    by (simp_all add: getitem_cells)
  have t: "getitem df t = Inr (cells df t)" using assms(1) by (rule getitem_cells)
  have "add_eeg df t (c # cs) (data, idx)
      = add_eeg df t cs (data @ [eeg_trace df t c], idx @ [length data])"
    by (simp add: c t eeg_trace_def)
  also have "\<dots> = Inr ((data @ [eeg_trace df t c]) @ map (eeg_trace df t) cs,
      (idx @ [length data]) @ [length (data @ [eeg_trace df t c])..<
         length (data @ [eeg_trace df t c]) + length cs])"
    by (rule Cons.IH[OF cs])
  also have "\<dots> = Inr (data @ map (eeg_trace df t) (c # cs),
      idx @ [length data..<length data + length (c # cs)])"
    by (simp add: upt_rec[of "length data"] del: upt_Suc)
  finally show ?case .
qed

lemma add_ecg_closed:
  assumes "t \<in> set (columns df)" "set cs \<subseteq> set (columns df)"
  shows "add_ecg parse df t cs (data, idx)
           = Inr (data @ map (ecg_trace parse df t) cs,
                  idx @ [length data..<length data + length cs])"
  using assms(2)
proof (induction cs arbitrary: data idx)
  case Nil
  then show ?case by simp
next
  case (Cons c cs)
  then have c: "getitem df c = Inr (cells df c)" and cs: "set cs \<subseteq> set (columns df)"
    by (simp_all add: getitem_cells)
  have t: "getitem df t = Inr (cells df t)" using assms(1) by (rule getitem_cells)
  have "add_ecg parse df t (c # cs) (data, idx)
      = add_ecg parse df t cs (data @ [ecg_trace parse df t c], idx @ [length data])"
    by (simp add: c t ecg_trace_def scaled_coerce)
  also have "\<dots> = Inr ((data @ [ecg_trace parse df t c]) @ map (ecg_trace parse df t) cs,
      (idx @ [length data]) @ [length (data @ [ecg_trace parse df t c])..<
         length (data @ [ecg_trace parse df t c]) + length cs])"
    by (rule Cons.IH[OF cs])
  also have "\<dots> = Inr (data @ map (ecg_trace parse df t) (c # cs),
      idx @ [length data..<length data + length (c # cs)])"
    by (simp add: upt_rec[of "length data"] del: upt_Suc)
  finally show ?case .
qed

lemma add_cm_closed:
  assumes "t \<in> set (columns df)" "set cs \<subseteq> set (columns df)"
  shows "add_cm parse df t cs (data, idx)
           = Inr (data @ map (cm_trace parse df t) cs,
                  idx @ [length data..<length data + length cs])"
  using assms(2)
proof (induction cs arbitrary: data idx)
  case Nil
  then show ?case by simp
next
  case (Cons c cs)
  then have c: "getitem df c = Inr (cells df c)" and cs: "set cs \<subseteq> set (columns df)"
    by (simp_all add: getitem_cells)
  have t: "getitem df t = Inr (cells df t)" using assms(1) by (rule getitem_cells)
  have "add_cm parse df t (c # cs) (data, idx)
      = add_cm parse df t cs (data @ [cm_trace parse df t c], idx @ [length data])"
    by (simp add: c t cm_trace_def scaled_coerce)
  also have "\<dots> = Inr ((data @ [cm_trace parse df t c]) @ map (cm_trace parse df t) cs,
      (idx @ [length data]) @ [length (data @ [cm_trace parse df t c])..<
         length (data @ [cm_trace parse df t c]) + length cs])"
    by (rule Cons.IH[OF cs])
  also have "\<dots> = Inr (data @ map (cm_trace parse df t) (c # cs),
      idx @ [length data..<length data + length (c # cs)])"
    by (simp add: upt_rec[of "length data"] del: upt_Suc)
  finally show ?case .
qed

lemma main_closed:
  assumes k: "classify df = Inr k"
  shows "main parse a df =
     (if eeg_cols k = [] \<and> ecg_cols k = [] \<and> cm_cols k = []
      then Inl (SystemExit ''No plottable channels found.'')
      else Inr (arg_output a,
             \<lparr>fig_data = all_traces parse (downsample (arg_downsample a) df) k,
              fig_buttons =
                (let total = length (eeg_cols k) + length (ecg_cols k) + length (cm_cols k)
                 in [(''All'', replicate total True),
                     (''EEG only'', map (\<lambda>i. i \<in> set [0..<length (eeg_cols k)]) [0..<total]),
                     (''ECG+CM only'',
                        map (\<lambda>i. i \<in> set ([length (eeg_cols k)..<length (eeg_cols k)
                                                + length (ecg_cols k)]
                                             @ [length (eeg_cols k) + length (ecg_cols k)..<total]))
                            [0..<total]),
                     (''Hide all'', replicate total False)])\<rparr>))"
proof -
  let ?df = "downsample (arg_downsample a) df"
  have cols: "columns ?df = columns df" by (rule downsample_columns)
  have t: "time_col k \<in> set (columns ?df)"
    using find_time_col_in_columns[OF classify_fields(1)[OF k]] cols by simp
  have g: "set (eeg_cols k) \<subseteq> set (columns ?df)" "set (ecg_cols k) \<subseteq> set (columns ?df)"
    "set (cm_cols k) \<subseteq> set (columns ?df)"
    using groups_subset_columns[OF k] cols by simp_all
  note e1 = add_eeg_closed[OF t g(1), of "[]" "[]", simplified]
  note e2 = add_ecg_closed[OF t g(2), of parse "map (eeg_trace ?df (time_col k)) (eeg_cols k)" "[]",
      simplified]
  note e3 = add_cm_closed[OF t g(3), of parse
      "map (eeg_trace ?df (time_col k)) (eeg_cols k)
         @ map (ecg_trace parse ?df (time_col k)) (ecg_cols k)" "[]", simplified]
  show ?thesis
    unfolding main_def by (simp add: k e1 e2 e3 all_traces_def Let_def add.assoc)
qed

lemma exit_status_simps:
  "exit_status (Inl e) = 1" "exit_status (Inr v) = 0"
  by (simp_all add: exit_status_def)

text \<open>
  C7. For a frame as \<open>read_csv\<close> returns it, classification succeeds. When it yields no
  EEG, no ECG and no CommonMode column (the fallback included), \<open>main\<close> ends with
  \<open>SystemExit\<close> and the message \<open>No plottable channels found.\<close>, the exit status is not 0
  and no output is written. When it yields at least one column, \<open>main\<close> returns after writing
  the figure, one series per column of the three groups, and the exit status is 0.
\<close>

theorem no_channels_exit:
  "wf_frame df \<longrightarrow>
     (\<exists>k. classify df = Inr k \<and>
        (eeg_cols k = [] \<and> ecg_cols k = [] \<and> cm_cols k = [] \<longrightarrow>
           main parse a df = Inl (SystemExit ''No plottable channels found.'') \<and>
           exit_status (main parse a df) \<noteq> 0 \<and>
           output_written (main parse a df) = None) \<and>
        (\<not> (eeg_cols k = [] \<and> ecg_cols k = [] \<and> cm_cols k = []) \<longrightarrow>
           (\<exists>fig. main parse a df = Inr (arg_output a, fig) \<and>
                  output_written (main parse a df) = Some (arg_output a, fig) \<and>
                  length (fig_data fig)
                    = length (eeg_cols k) + length (ecg_cols k) + length (cm_cols k)) \<and>
           exit_status (main parse a df) = 0))"
proof
  assume "wf_frame df"
  then have "df_columns df \<noteq> []" by (simp add: wf_frame_def)
  from classify_total[OF this] obtain k where k: "classify df = Inr k" by blast
  have e: "main parse a df = Inl (SystemExit ''No plottable channels found.'') \<and>
           exit_status (main parse a df) \<noteq> 0 \<and> output_written (main parse a df) = None"
    if "eeg_cols k = [] \<and> ecg_cols k = [] \<and> cm_cols k = []"
    using that by (simp add: main_closed[OF k] exit_status_simps output_written_def)
  have n: "(\<exists>fig. main parse a df = Inr (arg_output a, fig) \<and>
                  output_written (main parse a df) = Some (arg_output a, fig) \<and>
                  length (fig_data fig)
                    = length (eeg_cols k) + length (ecg_cols k) + length (cm_cols k)) \<and>
           exit_status (main parse a df) = 0"
    if "\<not> (eeg_cols k = [] \<and> ecg_cols k = [] \<and> cm_cols k = [])"
    using that
    by (simp add: main_closed[OF k] exit_status_simps output_written_def all_traces_def)
  from k e n show "\<exists>k. classify df = Inr k \<and>
        (eeg_cols k = [] \<and> ecg_cols k = [] \<and> cm_cols k = [] \<longrightarrow>
           main parse a df = Inl (SystemExit ''No plottable channels found.'') \<and>
           exit_status (main parse a df) \<noteq> 0 \<and>
           output_written (main parse a df) = None) \<and>
        (\<not> (eeg_cols k = [] \<and> ecg_cols k = [] \<and> cm_cols k = []) \<longrightarrow>
           (\<exists>fig. main parse a df = Inr (arg_output a, fig) \<and>
                  output_written (main parse a df) = Some (arg_output a, fig) \<and>
                  length (fig_data fig)
                    = length (eeg_cols k) + length (ecg_cols k) + length (cm_cols k)) \<and>
           exit_status (main parse a df) = 0)"
    by blast
qed

lemma classify_no_channel_frame:
  "classify no_channel_frame
     = Inr \<lparr>time_col = ''t'', eeg_cols = [], ecg_cols = [], cm_cols = []\<rparr>"
  by code_simp

lemma wf_no_channel_frame: "wf_frame no_channel_frame"
  by (simp add: wf_frame_def no_channel_frame_def columns_def nrows_def)

theorem no_channels_exit_witness:
  "wf_frame no_channel_frame \<and> wf_frame fallback_frame \<and>
   main demo_parse demo_args no_channel_frame = Inl (SystemExit ''No plottable channels found.'') \<and>
   exit_status (main demo_parse demo_args fallback_frame) = 0"
proof -
  from no_channels_exit [of no_channel_frame demo_parse demo_args, THEN mp, OF wf_no_channel_frame]
  obtain k where "classify no_channel_frame = Inr k"
    and "eeg_cols k = [] \<and> ecg_cols k = [] \<and> cm_cols k = [] \<longrightarrow>
           main demo_parse demo_args no_channel_frame
             = Inl (SystemExit ''No plottable channels found.'') \<and>
           exit_status (main demo_parse demo_args no_channel_frame) \<noteq> 0 \<and>
           output_written (main demo_parse demo_args no_channel_frame) = None"
    by blast
  then have a: "main demo_parse demo_args no_channel_frame
      = Inl (SystemExit ''No plottable channels found.'')"
    by (auto simp add: classify_no_channel_frame)
  from no_channels_exit [of fallback_frame demo_parse demo_args, THEN mp, OF wf_fallback_frame]
  obtain k' where "classify fallback_frame = Inr k'"
    and "\<not> (eeg_cols k' = [] \<and> ecg_cols k' = [] \<and> cm_cols k' = []) \<longrightarrow>
           (\<exists>fig. main demo_parse demo_args fallback_frame = Inr (arg_output demo_args, fig) \<and>
                  output_written (main demo_parse demo_args fallback_frame)
                    = Some (arg_output demo_args, fig) \<and>
                  length (fig_data fig)
                    = length (eeg_cols k') + length (ecg_cols k') + length (cm_cols k')) \<and>
           exit_status (main demo_parse demo_args fallback_frame) = 0"
    by blast
  then have b: "exit_status (main demo_parse demo_args fallback_frame) = 0"
    by (auto simp add: classify_fallback_frame)
  from wf_no_channel_frame wf_fallback_frame a b show ?thesis by (intro conjI)
qed





lemma scenario_columns:
  "columns (scenario_frame t fz cz x1 cm1) = [''Time'', ''Fz'', ''Cz'', ''X1'', ''CM1'']"
  by (simp add: scenario_frame_def columns_def)

lemma scenario_finders:
  "find_time_col [''Time'', ''Fz'', ''Cz'', ''X1'', ''CM1''] = Inr ''Time''"
  "find_eeg_cols [''Time'', ''Fz'', ''Cz'', ''X1'', ''CM1''] = [''Fz'', ''Cz'']"
  "find_ecg_cols [''Time'', ''Fz'', ''Cz'', ''X1'', ''CM1''] = [''X1'']"
  "find_cm_cols [''Time'', ''Fz'', ''Cz'', ''X1'', ''CM1''] = []"
  "find_ignore_cols [''Time'', ''Fz'', ''Cz'', ''X1'', ''CM1''] = []"
  by code_simp+

lemma classify_scenario:
  "classify (scenario_frame t fz cz x1 cm1)
     = Inr \<lparr>time_col = ''Time'', eeg_cols = [''Fz'', ''Cz''], ecg_cols = [''X1''], cm_cols = []\<rparr>"
  by (simp add: classify_def scenario_columns scenario_finders)

lemma cells_scenario:
  "cells (scenario_frame t fz cz x1 cm1) ''Time'' = map Num t"
  "cells (scenario_frame t fz cz x1 cm1) ''Fz'' = map Num fz"
  "cells (scenario_frame t fz cz x1 cm1) ''Cz'' = map Num cz"
  "cells (scenario_frame t fz cz x1 cm1) ''X1'' = map Num x1"
  by (simp_all add: cells_def getitem_def scenario_frame_def)

text \<open>
  C1, amended. For the header \<open>Time,Fz,Cz,X1,CM1\<close> with numeric cells and downsample
  factor 1, the Time column is \<open>Time\<close>, the EEG group is \<open>Fz, Cz\<close>, the ECG group is
  \<open>X1\<close> and the CommonMode group is empty: \<open>CM1\<close> is left out of every group and has no
  series. The EEG series are the raw column values and the ECG series is the raw column
  values divided by 1000.
\<close>

theorem scenario_classification:
  "classify (scenario_frame t fz cz x1 cm1)
     = Inr \<lparr>time_col = ''Time'', eeg_cols = [''Fz'', ''Cz''], ecg_cols = [''X1''], cm_cols = []\<rparr> \<and>
   (\<exists>fig. main parse \<lparr>arg_input = inp, arg_output = out, arg_downsample = 1\<rparr>
              (scenario_frame t fz cz x1 cm1) = Inr (out, fig) \<and>
      fig_data fig =
        [\<lparr>tr_x = map Num t, tr_y = map Num fz, tr_name = ''Fz'', tr_dash = None,
          tr_secondary_y = False\<rparr>,
         \<lparr>tr_x = map Num t, tr_y = map Num cz, tr_name = ''Cz'', tr_dash = None,
          tr_secondary_y = False\<rparr>,
         \<lparr>tr_x = map Num t, tr_y = map (\<lambda>v. Num (v / 1000)) x1, tr_name = ''X1 (mV)'',
          tr_dash = None, tr_secondary_y = True\<rparr>])"
proof -
  have d: "downsample 1 (scenario_frame t fz cz x1 cm1) = scenario_frame t fz cz x1 cm1"
    by (simp add: downsample_def)
  show ?thesis
    by (simp add: classify_scenario main_closed[OF classify_scenario] d all_traces_def
          eeg_trace_def ecg_trace_def cells_scenario scaled_def)
qed

text \<open>
  C1, as stated, fails: \<open>CM1\<close> is not matched by the CommonMode pattern, the digit after
  \<open>CM\<close> being a word character, and the CommonMode group of the scenario is empty.
\<close>

theorem scenario_cm1_counterexample:
  "classify (scenario_frame [0, 1] [10, 11] [20, 21] [3000, 3100] [40, 41])
     = Inr \<lparr>time_col = ''Time'', eeg_cols = [''Fz'', ''Cz''], ecg_cols = [''X1''], cm_cols = []\<rparr> \<and>
   find_cm_cols (columns (scenario_frame [0, 1] [10, 11] [20, 21] [3000, 3100] [40, 41])) = [] \<and>
   \<not> re_search cm_pattern ''CM1''"
proof -
  have "\<not> re_search cm_pattern ''CM1''" by code_simp
  then show ?thesis by (simp add: classify_scenario scenario_columns scenario_finders)
qed

theorem scenario_classification_witness:
  "\<exists>fig. main demo_parse demo_args (scenario_frame [0, 1] [10, 11] [20, 21] [3000, 3100] [40, 41])
            = Inr (''eeg_ecg_plot.html'', fig) \<and>
      fig_data fig =
        [\<lparr>tr_x = [Num 0, Num 1], tr_y = [Num 10, Num 11], tr_name = ''Fz'', tr_dash = None,
          tr_secondary_y = False\<rparr>,
         \<lparr>tr_x = [Num 0, Num 1], tr_y = [Num 20, Num 21], tr_name = ''Cz'', tr_dash = None,
          tr_secondary_y = False\<rparr>,
         \<lparr>tr_x = [Num 0, Num 1], tr_y = [Num 3, Num (31 / 10)], tr_name = ''X1 (mV)'',
          tr_dash = None, tr_secondary_y = True\<rparr>]"
  using scenario_classification [of "[0, 1]" "[10, 11]" "[20, 21]" "[3000, 3100]" "[40, 41]"
      demo_parse "''in.csv''" "''eeg_ecg_plot.html''", THEN conjunct2]
  by (simp add: demo_args_def)

end
